theory Spec2Isabelle
  imports Complex_Main
begin

section \<open>Data model\<close>

text \<open>
  The process kernels of the repository work on vectors of \<^verbatim>\<open>double\<close> indexed by mesh
  entities. A \<^verbatim>\<open>double\<close> is modelled as a \<^typ>\<open>real\<close>: the arithmetic and the
  comparisons of the source are those of the reals, and rounding, infinities and NaN
  are outside the model. A vector over the entities of one kind is a list indexed by
  the local entity id.
\<close>

text \<open>
  The boundary markers of \<^verbatim>\<open>OperatorDefs.hh\<close> that the flow kernel writes.
\<close>

datatype bc_kind = OPERATOR_BC_NONE | OPERATOR_BC_DIRICHLET | OPERATOR_BC_NEUMANN

text \<open>
  A \<^verbatim>\<open>CompositeVector\<close>: one vector per named component. The pressure of the flow kernel
  lives on cells and either on faces or on boundary faces (\<^verbatim>\<open>SetupRichardsFlow_\<close>), so
  the two face components are optional; \<^verbatim>\<open>HasComponent("face")\<close> is
  \<open>cv_face u \<noteq> None\<close>.
\<close>

record CompositeVector =
  cv_cell :: "real list"
  cv_face :: "real list option"
  cv_boundary_face :: "real list option"

text \<open>
  A \<^verbatim>\<open>Functions::BoundaryFunction\<close> is iterated as a sequence of pairs
  \<^verbatim>\<open>(bc->first, bc->second)\<close>: a face id and the value prescribed there.
\<close>

type_synonym BoundaryFunction = "(nat \<times> real) list"

section \<open>Errors\<close>

text \<open>
  An exception raised through \<^verbatim>\<open>Exceptions::amanzi_throw\<close> carries a message; a failed
  assertion carries none.
\<close>

datatype error = AssertionFailed | Message string

text \<open>
  Modelled from the spec: the macro \<^verbatim>\<open>ASSERT\<close> of \<^verbatim>\<open>dbc.hh\<close> is not among the sources.
  The spec calls the two coupling modes "mutually exclusive by assertion in the source"
  and a contract violation an unconditional abort, so a failed assertion ends the
  function with the error \<open>AssertionFailed\<close>.
\<close>

definition ASSERT :: "bool \<Rightarrow> error + unit" where
  "ASSERT b = (if b then Inr () else Inl AssertionFailed)"

section \<open>Diagnostic output\<close>

text \<open>
  The verbosity levels of \<^verbatim>\<open>Teuchos\<close>. The verbose object \<^verbatim>\<open>vo_\<close> of a kernel is used
  through \<^verbatim>\<open>vo_->os_OK(level)\<close> only, so it is modelled as that predicate.
\<close>

datatype EVerbosityLevel = VERB_NONE | VERB_LOW | VERB_MEDIUM | VERB_HIGH | VERB_EXTREME

type_synonym VerboseObject = "EVerbosityLevel \<Rightarrow> bool"

section \<open>Mesh queries\<close>

text \<open>
  The mesh is a collaborator. The flow kernel asks it for the number of faces a rank
  uses (\<^verbatim>\<open>num_entities(FACE, USED)\<close>: the owned faces followed by the ghost faces) and
  for the number of owned faces (\<^verbatim>\<open>num_entities(FACE, OWNED)\<close>), for the cells adjacent
  to a face (\<^verbatim>\<open>face_get_cells(f, USED, &cells)\<close>),
  for the area of a face, and for the two index maps that lead from a local face id to
  the local id of a boundary face (\<^verbatim>\<open>face_map(false).GID\<close> and
  \<^verbatim>\<open>exterior_face_map().LID\<close>). Each query is a field of the record.
\<close>

record Mesh =
  num_faces_used :: nat
  num_faces_owned :: nat
  face_get_cells :: "nat \<Rightarrow> nat list"
  face_area :: "nat \<Rightarrow> real"
  face_map_GID :: "nat \<Rightarrow> int"
  exterior_face_map_LID :: "int \<Rightarrow> int"

section \<open>Richards flow: the boundary condition composer\<close>

text \<open>
  The fields of the state \<^verbatim>\<open>S_next_\<close> that the composer reads: the upwinded relative
  permeability and the temperature on faces, the pressure (the primary variable
  \<^verbatim>\<open>key_\<close>), and on the cells of the surface mesh the surface pressure and the flux
  exchanged with the surface. \<open>surface_entity_get_parent\<close> is the query
  \<^verbatim>\<open>entity_get_parent(CELL, c)\<close> of the surface mesh: the subsurface face under the
  surface cell \<open>c\<close>.
\<close>

record FlowState =
  numerical_rel_perm :: "real list"
  temperature :: "real list"
  pressure :: CompositeVector
  surface_pressure :: "real list"
  surface_subsurface_flux :: "real list"
  surface_entity_get_parent :: "nat \<Rightarrow> nat"

text \<open>
  The modes of \<^verbatim>\<open>update_flux_\<close> and the upwinding methods of \<^verbatim>\<open>Krel_method_\<close>.
\<close>

datatype FluxUpdateMode =
  UPDATE_FLUX_ITERATION | UPDATE_FLUX_TIMESTEP | UPDATE_FLUX_VIS | UPDATE_FLUX_NEVER

datatype UpwindMethod =
    UPWIND_METHOD_GRAVITY
  | UPWIND_METHOD_CENTERED
  | UPWIND_METHOD_TOTAL_FLUX
  | UPWIND_METHOD_ARITHMETIC_MEAN

text \<open>
  The members of the class \<^verbatim>\<open>Richards\<close> that the modelled functions read and write:
  first those of the composer (\<^verbatim>\<open>bc_markers_\<close> and \<^verbatim>\<open>bc_values_\<close> have one entry per
  used face), then the options that \<^verbatim>\<open>SetupRichardsFlow_\<close> sets. The members
  \<^verbatim>\<open>is_source_term_\<close> and \<^verbatim>\<open>explicit_source_\<close> carry the name of the class here, since
  \<^verbatim>\<open>EnergyBase\<close> has a member of the same name.
\<close>

record Richards =
  coupled_to_surface_via_head :: bool
  coupled_to_surface_via_flux :: bool
  infiltrate_only_if_unfrozen :: bool
  bc_pressure :: BoundaryFunction
  bc_flux :: BoundaryFunction
  bc_seepage :: BoundaryFunction
  bc_markers :: "bc_kind list"
  bc_values :: "real list"
  mesh :: Mesh
  S_next :: FlowState
  perm_scale :: real
  richards_is_source_term :: bool
  richards_explicit_source :: bool
  update_flux :: FluxUpdateMode
  clobber_surf_kr :: bool
  symmetric :: bool
  Krel_method :: UpwindMethod
  upwind_from_prev_flux :: bool
  vapor_diffusion :: bool
  precon_used :: bool
  precon_wc :: bool
  modify_predictor_with_consistent_faces :: bool
  modify_predictor_bc_flux :: bool
  modify_predictor_first_bc_flux :: bool
  modify_predictor_wc :: bool

text \<open>
  \<^verbatim>\<open>Richards::BoundaryValue\<close>: the value of a vector at a face, read from the face
  component if there is one, else from the boundary-face component through the two index
  maps; a vector with neither component raises. \<^verbatim>\<open>exterior_face_map().LID\<close> answers
  \<open>-1\<close> for a face that is not on the boundary; the source then reads
  \<^verbatim>\<open>pres[0][-1]\<close>, which is no entry of the vector and to which C++ gives no meaning.
  The model leaves that value unspecified, as HOL leaves \<open>xs ! i\<close> for an index \<open>i\<close>
  beyond the list.
\<close>

definition BoundaryValue :: "Mesh \<Rightarrow> CompositeVector \<Rightarrow> nat \<Rightarrow> error + real" where
  "BoundaryValue m solution face_id =
     (case cv_face solution of
        Some pres \<Rightarrow> Inr (pres ! face_id)
      | None \<Rightarrow>
          (case cv_boundary_face solution of
             Some pres \<Rightarrow>
               (let face_gid = face_map_GID m face_id;
                    face_lbid = exterior_face_map_LID m face_gid
                in Inr (if 0 \<le> face_lbid then pres ! nat face_lbid else undefined))
           | None \<Rightarrow>
               Inl (Message (''No component is defined for boundary faces'' @ [CHR 0x0A]))))"

text \<open>
  \<^verbatim>\<open>Richards::UpdateBoundaryConditions_(bool kr)\<close>, loop by loop. Each loop works on the
  pair of arrays \<^verbatim>\<open>(bc_markers_, bc_values_)\<close>.

  The first loop: \<^verbatim>\<open>// initialize all to 0\<close>.
\<close>

definition bc_initialize :: "bc_kind list \<times> real list \<Rightarrow> bc_kind list \<times> real list" where
  "bc_initialize b =
     fold (\<lambda>n (ms, vs). (ms[n := OPERATOR_BC_NONE], vs[n := 0])) [0..<length (fst b)] b"

text \<open>
  \<^verbatim>\<open>// Dirichlet boundary conditions\<close>
\<close>

definition bc_dirichlet ::
  "BoundaryFunction \<Rightarrow> bc_kind list \<times> real list \<Rightarrow> bc_kind list \<times> real list" where
  "bc_dirichlet bcs b = fold (\<lambda>(f, v) (ms, vs). (ms[f := OPERATOR_BC_DIRICHLET], vs[f := v])) bcs b"

text \<open>
  \<^verbatim>\<open>// Standard Neuman boundary conditions\<close>: the branch taken when
  \<^verbatim>\<open>infiltrate_only_if_unfrozen_\<close> is false.
\<close>

definition bc_neumann ::
  "bool \<Rightarrow> real list \<Rightarrow> BoundaryFunction \<Rightarrow> bc_kind list \<times> real list \<Rightarrow> bc_kind list \<times> real list" where
  "bc_neumann kr rel_perm bcs b =
     fold (\<lambda>(f, v) (ms, vs).
             let ms = ms[f := OPERATOR_BC_NEUMANN];
                 vs = vs[f := v]
             in if \<not> kr \<and> rel_perm ! f > 0 then (ms, vs[f := vs ! f / rel_perm ! f])
                else (ms, vs))
       bcs b"

text \<open>
  \<^verbatim>\<open>// Neumann boundary conditions that turn off if temp < freezing\<close>: the branch taken
  when \<^verbatim>\<open>infiltrate_only_if_unfrozen_\<close> is true.
\<close>

definition bc_neumann_unfrozen ::
  "bool \<Rightarrow> real list \<Rightarrow> real list \<Rightarrow> BoundaryFunction \<Rightarrow>
   bc_kind list \<times> real list \<Rightarrow> bc_kind list \<times> real list" where
  "bc_neumann_unfrozen kr rel_perm temp bcs b =
     fold (\<lambda>(f, v) (ms, vs).
             let ms = ms[f := OPERATOR_BC_NEUMANN]
             in if temp ! f > 27315 / 100 then
                  (let vs = vs[f := v]
                   in if \<not> kr \<and> rel_perm ! f > 0 then (ms, vs[f := vs ! f / rel_perm ! f])
                      else (ms, vs))
                else (ms, vs[f := 0]))
       bcs b"

text \<open>
  \<^verbatim>\<open>// seepage face -- pressure <= p_atm, outward mass flux >= 0\<close>. Every iteration reads
  the boundary value of the pressure (the local \<^verbatim>\<open>bc_pressure\<close> of the source, here
  \<open>boundary_pressure\<close>), which may raise. (The line the source prints to
  \<^verbatim>\<open>std::cout\<close> after the loop is not modelled.)
\<close>

fun bc_seepage_loop ::
  "Mesh \<Rightarrow> CompositeVector \<Rightarrow> BoundaryFunction \<Rightarrow> bc_kind list \<times> real list \<Rightarrow>
   error + bc_kind list \<times> real list" where
  "bc_seepage_loop m pres [] b = Inr b"
| "bc_seepage_loop m pres ((f, v) # bcs) (ms, vs) =
     (case BoundaryValue m pres f of
        Inl e \<Rightarrow> Inl e
      | Inr boundary_pressure \<Rightarrow>
          bc_seepage_loop m pres bcs
            (if boundary_pressure < v then (ms[f := OPERATOR_BC_NEUMANN], vs[f := 0])
             else (ms[f := OPERATOR_BC_DIRICHLET], vs[f := v])))"

text \<open>
  \<^verbatim>\<open>// surface coupling\<close> through the head: \<^verbatim>\<open>// Face is Dirichlet with value of
  surface head\<close>.
\<close>

definition bc_surface_head ::
  "(nat \<Rightarrow> nat) \<Rightarrow> real list \<Rightarrow> bc_kind list \<times> real list \<Rightarrow> bc_kind list \<times> real list" where
  "bc_surface_head parent head b =
     fold (\<lambda>c (ms, vs).
             let f = parent c
             in (ms[f := OPERATOR_BC_DIRICHLET], vs[f := head ! c]))
       [0..<length head] b"

text \<open>
  \<^verbatim>\<open>// surface coupling\<close> through the flux: \<^verbatim>\<open>// Face is Neumann with value of
  surface residual\<close>.
\<close>

definition bc_surface_flux ::
  "bool \<Rightarrow> Mesh \<Rightarrow> real list \<Rightarrow> (nat \<Rightarrow> nat) \<Rightarrow> real list \<Rightarrow>
   bc_kind list \<times> real list \<Rightarrow> bc_kind list \<times> real list" where
  "bc_surface_flux kr m rel_perm parent flux b =
     fold (\<lambda>c (ms, vs).
             let f = parent c;
                 ms = ms[f := OPERATOR_BC_NEUMANN];
                 vs = vs[f := flux ! c / face_area m f]
             in if \<not> kr \<and> rel_perm ! f > 0 then (ms, vs[f := vs ! f / rel_perm ! f])
                else (ms, vs))
       [0..<length flux] b"

text \<open>
  \<^verbatim>\<open>// mark all remaining boundary conditions as zero flux conditions\<close>: a loop over the
  owned faces.
\<close>

definition bc_default :: "Mesh \<Rightarrow> bc_kind list \<times> real list \<Rightarrow> bc_kind list \<times> real list" where
  "bc_default m b =
     fold (\<lambda>f (ms, vs).
             if ms ! f = OPERATOR_BC_NONE then
               (let ncells = length (face_get_cells m f)
                in if ncells = 1 then (ms[f := OPERATOR_BC_NEUMANN], vs[f := 0]) else (ms, vs))
             else (ms, vs))
       [0..<num_faces_owned m] b"

text \<open>
  The whole pass.
\<close>

definition UpdateBoundaryConditions :: "bool \<Rightarrow> Richards \<Rightarrow> error + Richards" where
  "UpdateBoundaryConditions kr pk =
     (let S = S_next pk;
          b = bc_initialize (bc_markers pk, bc_values pk);
          b = bc_dirichlet (bc_pressure pk) b;
          rel_perm = numerical_rel_perm S;
          b = (if \<not> infiltrate_only_if_unfrozen pk then bc_neumann kr rel_perm (bc_flux pk) b
               else bc_neumann_unfrozen kr rel_perm (temperature S) (bc_flux pk) b)
      in case bc_seepage_loop (mesh pk) (pressure S) (bc_seepage pk) b of
           Inl e \<Rightarrow> Inl e
         | Inr b \<Rightarrow>
             (let b = (if coupled_to_surface_via_head pk
                       then bc_surface_head (surface_entity_get_parent S) (surface_pressure S) b
                       else b);
                  b = (if coupled_to_surface_via_flux pk
                       then bc_surface_flux kr (mesh pk) rel_perm (surface_entity_get_parent S)
                              (surface_subsurface_flux S) b
                       else b);
                  b = bc_default (mesh pk) b
              in Inr (pk\<lparr>bc_markers := fst b, bc_values := snd b\<rparr>)))"

text \<open>
  \<^verbatim>\<open>Richards::ApplyBoundaryConditions_\<close>: the loop runs over the owned faces of the
  vector (\<^verbatim>\<open>pres_f.MyLength()\<close>) and assigns \<^verbatim>\<open>bc_values_[f]\<close> where
  \<^verbatim>\<open>bc_markers_[f]\<close> is Dirichlet. The view of the face component is taken without
  a guard; a vector that has no face component has no view, which is the result
  \<open>None\<close>.
\<close>

definition ApplyBoundaryConditions :: "Richards \<Rightarrow> CompositeVector \<Rightarrow> CompositeVector option" where
  "ApplyBoundaryConditions pk pres =
     (case cv_face pres of
        None \<Rightarrow> None
      | Some pres_f \<Rightarrow>
          Some (pres\<lparr>cv_face := Some
            (fold (\<lambda>f pf. if bc_markers pk ! f = OPERATOR_BC_DIRICHLET
                           then pf[f := bc_values pk ! f] else pf)
               [0..<length pres_f] pres_f)\<rparr>))"

section \<open>Richards flow: what one pass of the composer assigns\<close>

text \<open>
  Every loop of the pass but the first and the last assigns a marker and a value to the
  face of each entry it visits. \<open>assign_bcs\<close> performs a list of such assignments in
  order, so that a later assignment to a face replaces an earlier one.
\<close>

definition assign_bcs ::
  "(nat \<times> bc_kind \<times> real) list \<Rightarrow> bc_kind list \<times> real list \<Rightarrow> bc_kind list \<times> real list" where
  "assign_bcs as b = fold (\<lambda>(f, k, v) (ms, vs). (ms[f := k], vs[f := v])) as b"

text \<open>
  The value of a flux condition: a pass without relative permeability (\<open>kr\<close> false)
  divides the flux by the upwinded coefficient of the face where that is positive.
\<close>

definition flux_value :: "bool \<Rightarrow> real list \<Rightarrow> nat \<Rightarrow> real \<Rightarrow> real" where
  "flux_value kr rel_perm f q = (if \<not> kr \<and> rel_perm ! f > 0 then q / rel_perm ! f else q)"

text \<open>
  The complementarity pair of a seepage face with boundary pressure \<open>p\<close> and
  threshold \<open>v\<close>.
\<close>

definition seepage_pair :: "real \<Rightarrow> real \<Rightarrow> bc_kind \<times> real" where
  "seepage_pair p v = (if p < v then (OPERATOR_BC_NEUMANN, 0) else (OPERATOR_BC_DIRICHLET, v))"

text \<open>
  The boundary pressure that the seepage loop reads at a face (\<^verbatim>\<open>BoundaryValue\<close>
  where it returns).
\<close>

definition boundary_pressure_at :: "Mesh \<Rightarrow> CompositeVector \<Rightarrow> nat \<Rightarrow> real" where
  "boundary_pressure_at m pres f = (case BoundaryValue m pres f of Inr p \<Rightarrow> p | Inl e \<Rightarrow> 0)"

text \<open>
  The assignments of one pass, in the order of the source: prescribed pressure,
  prescribed flux, seepage, coupling through the head, coupling through the flux.
\<close>

definition pass_assignments :: "bool \<Rightarrow> Richards \<Rightarrow> (nat \<times> bc_kind \<times> real) list" where
  "pass_assignments kr pk =
     (let S = S_next pk;
          parent = surface_entity_get_parent S;
          rel_perm = numerical_rel_perm S
      in map (\<lambda>(f, v). (f, OPERATOR_BC_DIRICHLET, v)) (bc_pressure pk)
       @ map (\<lambda>(f, q). (f, OPERATOR_BC_NEUMANN,
                if infiltrate_only_if_unfrozen pk \<and> \<not> temperature S ! f > 27315 / 100 then 0
                else flux_value kr rel_perm f q)) (bc_flux pk)
       @ map (\<lambda>(f, v). (f, seepage_pair (boundary_pressure_at (mesh pk) (pressure S) f) v))
           (bc_seepage pk)
       @ (if coupled_to_surface_via_head pk
          then map (\<lambda>c. (parent c, OPERATOR_BC_DIRICHLET, surface_pressure S ! c))
                 [0..<length (surface_pressure S)]
          else [])
       @ (if coupled_to_surface_via_flux pk
          then map (\<lambda>c. (parent c, OPERATOR_BC_NEUMANN,
                  flux_value kr rel_perm (parent c)
                    (surface_subsurface_flux S ! c / face_area (mesh pk) (parent c))))
                 [0..<length (surface_subsurface_flux S)]
          else []))"

text \<open>
  The data of the pass are well formed when the two arrays have the same length (they
  are resized together in \<^verbatim>\<open>SetupRichardsFlow_\<close>), no boundary function lists a face
  twice, and no two cells of a coupled surface lie over the same face.
\<close>

definition well_formed :: "Richards \<Rightarrow> bool" where
  "well_formed pk \<longleftrightarrow>
     length (bc_markers pk) = length (bc_values pk) \<and>
     distinct (map fst (bc_pressure pk)) \<and>
     distinct (map fst (bc_flux pk)) \<and>
     distinct (map fst (bc_seepage pk)) \<and>
     (coupled_to_surface_via_head pk \<longrightarrow>
        distinct (map (surface_entity_get_parent (S_next pk)) [0..<length (surface_pressure (S_next pk))])) \<and>
     (coupled_to_surface_via_flux pk \<longrightarrow>
        distinct (map (surface_entity_get_parent (S_next pk)) [0..<length (surface_subsurface_flux (S_next pk))]))"

text \<open>
  A face is claimed by the surface coupling when a coupling mode is on and the face is
  the parent of a surface cell.
\<close>

definition surface_coupled_face :: "Richards \<Rightarrow> nat \<Rightarrow> bool" where
  "surface_coupled_face pk f \<longleftrightarrow>
     (coupled_to_surface_via_head pk \<and>
        find (\<lambda>c. surface_entity_get_parent (S_next pk) c = f)
          [0..<length (surface_pressure (S_next pk))] \<noteq> None) \<or>
     (coupled_to_surface_via_flux pk \<and>
        find (\<lambda>c. surface_entity_get_parent (S_next pk) c = f)
          [0..<length (surface_subsurface_flux (S_next pk))] \<noteq> None)"

text \<open>
  The pair of a face in the words of the specification (section 4.3), highest
  precedence first: a coupled-domain condition (Neumann from the flux of the surface,
  or Dirichlet from its pressure); the seepage condition; the prescribed flux, gated to
  zero at a face that is not above freezing when infiltration is limited to unfrozen
  ground; the prescribed pressure; and the default, zero-flux Neumann at an owned face
  with exactly one adjacent cell, no condition otherwise.
\<close>

definition bc_precedence :: "bool \<Rightarrow> Richards \<Rightarrow> nat \<Rightarrow> bc_kind \<times> real" where
  "bc_precedence kr pk f =
     (let S = S_next pk;
          parent = surface_entity_get_parent S;
          rel_perm = numerical_rel_perm S
      in case (if coupled_to_surface_via_flux pk
               then find (\<lambda>c. parent c = f) [0..<length (surface_subsurface_flux S)] else None) of
           Some c \<Rightarrow>
             (OPERATOR_BC_NEUMANN,
              flux_value kr rel_perm f (surface_subsurface_flux S ! c / face_area (mesh pk) f))
         | None \<Rightarrow>
        (case (if coupled_to_surface_via_head pk
               then find (\<lambda>c. parent c = f) [0..<length (surface_pressure S)] else None) of
           Some c \<Rightarrow> (OPERATOR_BC_DIRICHLET, surface_pressure S ! c)
         | None \<Rightarrow>
        (case map_of (bc_seepage pk) f of
           Some v \<Rightarrow> seepage_pair (boundary_pressure_at (mesh pk) (pressure S) f) v
         | None \<Rightarrow>
        (case map_of (bc_flux pk) f of
           Some q \<Rightarrow>
             (OPERATOR_BC_NEUMANN,
              if infiltrate_only_if_unfrozen pk \<and> \<not> temperature S ! f > 27315 / 100 then 0
              else flux_value kr rel_perm f q)
         | None \<Rightarrow>
        (case map_of (bc_pressure pk) f of
           Some v \<Rightarrow> (OPERATOR_BC_DIRICHLET, v)
         | None \<Rightarrow>
             if f < num_faces_owned (mesh pk) \<and> length (face_get_cells (mesh pk) f) = 1
             then (OPERATOR_BC_NEUMANN, 0)
             else (OPERATOR_BC_NONE, 0))))))"

section \<open>Richards flow: setup\<close>

text \<open>
  A \<^verbatim>\<open>Teuchos::ParameterList\<close> as the flow kernel uses it: named entries that hold a
  truth value, a number, a string or a sublist.
\<close>

datatype ParameterEntry =
    PBool bool
  | PDouble real
  | PString string
  | PList "(string \<times> ParameterEntry) list"

type_synonym ParameterList = "(string \<times> ParameterEntry) list"

text \<open>
  \<^verbatim>\<open>plist.get<T>(name, default)\<close> returns the entry, or the default when there is
  none; an entry of another type raises. \<^verbatim>\<open>plist.sublist(name, mustAlreadyExist)\<close>
  returns the sublist, or an empty one when there is none and none is required.
  \<^verbatim>\<open>plist.isSublist(name)\<close> tests for a sublist.
\<close>

definition get_bool :: "ParameterList \<Rightarrow> string \<Rightarrow> bool \<Rightarrow> error + bool" where
  "get_bool plist name def =
     (case map_of plist name of
        None \<Rightarrow> Inr def
      | Some (PBool b) \<Rightarrow> Inr b
      | Some _ \<Rightarrow> Inl (Message (''InvalidParameterType: '' @ name)))"

definition get_double :: "ParameterList \<Rightarrow> string \<Rightarrow> real \<Rightarrow> error + real" where
  "get_double plist name def =
     (case map_of plist name of
        None \<Rightarrow> Inr def
      | Some (PDouble x) \<Rightarrow> Inr x
      | Some _ \<Rightarrow> Inl (Message (''InvalidParameterType: '' @ name)))"

definition get_string :: "ParameterList \<Rightarrow> string \<Rightarrow> string \<Rightarrow> error + string" where
  "get_string plist name def =
     (case map_of plist name of
        None \<Rightarrow> Inr def
      | Some (PString s) \<Rightarrow> Inr s
      | Some _ \<Rightarrow> Inl (Message (''InvalidParameterType: '' @ name)))"

definition plist_sublist :: "ParameterList \<Rightarrow> string \<Rightarrow> bool \<Rightarrow> error + ParameterList" where
  "plist_sublist plist name mustAlreadyExist =
     (case map_of plist name of
        None \<Rightarrow> if mustAlreadyExist then Inl (Message (''InvalidParameterName: '' @ name))
                else Inr []
      | Some (PList l) \<Rightarrow> Inr l
      | Some _ \<Rightarrow> Inl (Message (''InvalidParameterType: '' @ name)))"

definition isSublist :: "ParameterList \<Rightarrow> string \<Rightarrow> bool" where
  "isSublist plist name = (case map_of plist name of Some (PList l) \<Rightarrow> True | _ \<Rightarrow> False)"

text \<open>
  Sequencing of steps that may raise: the first error ends the function.
\<close>

definition bind_result :: "error + 'a \<Rightarrow> ('a \<Rightarrow> error + 'b) \<Rightarrow> error + 'b" where
  "bind_result r f = (case r of Inl e \<Rightarrow> Inl e | Inr x \<Rightarrow> f x)"

text \<open>
  The boundary functions come from the factory \<^verbatim>\<open>FlowBCFactory\<close>, a collaborator, given
  the sublist of the boundary conditions.
\<close>

record FlowBCFactory =
  CreatePressure :: "ParameterList \<Rightarrow> BoundaryFunction"
  CreateMassFlux :: "ParameterList \<Rightarrow> BoundaryFunction"
  CreateSeepageFacePressure :: "ParameterList \<Rightarrow> BoundaryFunction"

text \<open>
  \<^verbatim>\<open>std::vector::resize(n, v)\<close>.
\<close>

definition resize :: "nat \<Rightarrow> 'a \<Rightarrow> 'a list \<Rightarrow> 'a list" where
  "resize n v xs = take n xs @ replicate (n - length xs) v"

text \<open>
  The choice of the flux update mode and of the upwinding method by name; an unknown
  name raises.
\<close>

definition parse_update_flux :: "string \<Rightarrow> error + FluxUpdateMode" where
  "parse_update_flux updatestring =
     (if updatestring = ''iteration'' then Inr UPDATE_FLUX_ITERATION
      else if updatestring = ''timestep'' then Inr UPDATE_FLUX_TIMESTEP
      else if updatestring = ''vis'' then Inr UPDATE_FLUX_VIS
      else if updatestring = ''never'' then Inr UPDATE_FLUX_NEVER
      else Inl (Message (''Unknown frequence for updating the overland flux: '' @ updatestring)))"

definition select_upwinding ::
  "ParameterList \<Rightarrow> Richards \<Rightarrow> string \<Rightarrow> error + (UpwindMethod \<times> bool \<times> bool)" where
  "select_upwinding plist pk method_name =
     (if method_name = ''upwind with gravity'' then
        Inr (UPWIND_METHOD_GRAVITY, False, upwind_from_prev_flux pk)
      else if method_name = ''cell centered'' then
        Inr (UPWIND_METHOD_CENTERED, True, upwind_from_prev_flux pk)
      else if method_name = ''upwind with Darcy flux'' then
        bind_result (get_bool plist ''upwind flux from previous iteration'' False)
          (\<lambda>prev. Inr (UPWIND_METHOD_TOTAL_FLUX, False, prev))
      else if method_name = ''arithmetic mean'' then
        Inr (UPWIND_METHOD_ARITHMETIC_MEAN, False, upwind_from_prev_flux pk)
      else Inl (Message (''Richards Flow PK has no upwinding method named: '' @ method_name)))"

text \<open>
  \<^verbatim>\<open>Richards::SetupRichardsFlow_\<close>: the reads of the parameter list and the members
  they set, in the order of the source. The requirements placed on the state and the
  construction of the operators belong to the collaborators and are left out. The
  triple of \<open>select_upwinding\<close> is \<^verbatim>\<open>Krel_method_\<close>, \<^verbatim>\<open>symmetric_\<close> and
  \<^verbatim>\<open>upwind_from_prev_flux_\<close>.
\<close>

definition SetupRichardsFlow ::
  "ParameterList \<Rightarrow> FlowBCFactory \<Rightarrow> Richards \<Rightarrow> error + Richards" where
  "SetupRichardsFlow plist bc_factory pk =
     bind_result (plist_sublist plist ''Diffusion'' False) (\<lambda>Diffusion.
     bind_result (get_bool Diffusion ''TPFA use cells only'' False) (\<lambda>TPFA_use_cells_only.
     bind_result (get_double plist ''permeability rescaling'' 1) (\<lambda>perm_scale'.
     bind_result (get_bool plist ''source term'' False) (\<lambda>is_source_term'.
     bind_result (if is_source_term' then get_bool plist ''explicit source term'' False
                  else Inr (richards_explicit_source pk)) (\<lambda>explicit_source'.
     bind_result (plist_sublist plist ''boundary conditions'' True) (\<lambda>bc_plist.
     bind_result (get_bool bc_plist ''infiltrate only if unfrozen'' False) (\<lambda>infiltrate'.
     bind_result (get_string plist ''update flux mode'' ''iteration'') (\<lambda>updatestring.
     bind_result (parse_update_flux updatestring) (\<lambda>update_flux'.
     bind_result (get_bool plist ''coupled to surface via flux'' False) (\<lambda>via_flux.
     bind_result (get_bool plist ''coupled to surface via head'' False) (\<lambda>via_head.
     bind_result (ASSERT (\<not> (via_flux \<and> via_head))) (\<lambda>_.
     bind_result (get_bool plist ''clobber surface rel perm'' False) (\<lambda>clobber'.
     bind_result (get_string plist ''relative permeability method'' ''upwind with gravity'')
       (\<lambda>method_name.
     bind_result (select_upwinding plist pk method_name) (\<lambda>(Krel', symmetric', prev').
     bind_result (get_bool plist ''precondition using WC'' False) (\<lambda>precon_wc'.
     bind_result (get_bool plist ''modify predictor with consistent faces'' False) (\<lambda>mp_faces.
     bind_result (get_bool plist ''modify predictor for flux BCs'' False) (\<lambda>mp_bc_flux.
     bind_result (get_bool plist ''modify predictor for initial flux BCs'' False) (\<lambda>mp_first.
     bind_result (get_bool plist ''modify predictor via water content'' False) (\<lambda>mp_wc.
       Inr (pk\<lparr>
         perm_scale := perm_scale',
         richards_is_source_term := is_source_term',
         richards_explicit_source := explicit_source',
         bc_pressure := CreatePressure bc_factory bc_plist,
         bc_flux := CreateMassFlux bc_factory bc_plist,
         infiltrate_only_if_unfrozen := infiltrate',
         bc_seepage := CreateSeepageFacePressure bc_factory bc_plist,
         bc_markers := resize (num_faces_used (mesh pk)) OPERATOR_BC_NONE (bc_markers pk),
         bc_values := resize (num_faces_used (mesh pk)) 0 (bc_values pk),
         update_flux := (if via_head then UPDATE_FLUX_ITERATION else update_flux'),
         coupled_to_surface_via_flux := via_flux,
         coupled_to_surface_via_head := via_head,
         clobber_surf_kr := clobber',
         symmetric := symmetric',
         Krel_method := Krel',
         upwind_from_prev_flux := prev',
         vapor_diffusion := False,
         precon_used := isSublist plist ''preconditioner'',
         precon_wc := precon_wc',
         modify_predictor_with_consistent_faces := mp_faces,
         modify_predictor_bc_flux := mp_bc_flux,
         modify_predictor_first_bc_flux := mp_first,
         modify_predictor_wc := mp_wc\<rparr>)))))))))))))))))))))"

section \<open>Energy: updating the preconditioner\<close>

text \<open>
  The members of \<^verbatim>\<open>EnergyBase\<close> that \<^verbatim>\<open>update_precon\<close> and
  \<^verbatim>\<open>AddSourcesToPrecon_\<close> read. \<open>source_IsDependency\<close> is the answer of
  \<^verbatim>\<open>S->GetFieldEvaluator(source_key_)->IsDependency(S, key_)\<close>. (An identifier of the
  source that ends in an underscore loses it here.)
\<close>

record EnergyConfig =
  coupled_to_subsurface_via_temp :: bool
  coupled_to_subsurface_via_flux :: bool
  assemble_preconditioner :: bool
  is_source_term :: bool
  source_IsDependency :: bool

text \<open>
  The fields of the state \<^verbatim>\<open>S_next_\<close> that the update reads, after their evaluators
  have brought them up to date.
\<close>

record EnergyState =
  S_time :: real
  S_de_dT :: "real list"
  S_surface_pressure :: "real list"
  S_atmospheric_pressure :: real
  S_dsource_dT :: "real list"

text \<open>
  The operator \<^verbatim>\<open>mfd_preconditioner_\<close> belongs to the linear-algebra collaborator. The
  model keeps the vector \<^verbatim>\<open>Acc_cells()\<close>, which \<^verbatim>\<open>update_precon\<close> updates in place,
  and the sequence of the operator's methods that have been called; what a method
  computes is not modelled.
\<close>

datatype mfd_call =
    CreateMFDstiffnessMatrices
  | CreateMFDrhsVectors
  | MFD_ApplyBoundaryConditions
  | AssembleGlobalMatrices
  | ComputeSchurComplement
  | UpdatePreconditioner

record MatrixMFD =
  Acc_cells :: "real list"
  calls :: "mfd_call list"

text \<open>
  \<^verbatim>\<open>update_precon\<close> writes two members of the kernel: the operator
  \<^verbatim>\<open>mfd_preconditioner_\<close>, and the accumulation operator \<^verbatim>\<open>preconditioner_acc_\<close>, of
  which \<^verbatim>\<open>AddSourcesToPrecon_\<close> updates the vector \<^verbatim>\<open>local_matrices()->vals\<close>. The
  record of the two extends the one of the operator by that vector.
\<close>

record EnergyPreconditioner = MatrixMFD +
  preconditioner_acc_vals :: "real list"

definition call :: "mfd_call \<Rightarrow> 'a MatrixMFD_scheme \<Rightarrow> 'a MatrixMFD_scheme" where
  "call m A = A\<lparr>calls := calls A @ [m]\<rparr>"

text \<open>
  The block of \<^verbatim>\<open>EnergyBase::update_precon\<close> under the comment
  \<^verbatim>\<open>-- update the diagonal\<close>: \<^verbatim>\<open>ncells = de_dT.MyLength()\<close>, and for every cell
  \<^verbatim>\<open>Acc_cells[c] += pres[0][c] >= patm ? de_dT[0][c] / h : 0.\<close> when the kernel is
  coupled to the subsurface, \<^verbatim>\<open>Acc_cells[c] += de_dT[0][c] / h\<close> otherwise.
\<close>

definition update_precon_diagonal ::
  "EnergyConfig \<Rightarrow> real list \<Rightarrow> real list \<Rightarrow> real \<Rightarrow> real \<Rightarrow> real list \<Rightarrow> real list" where
  "update_precon_diagonal pk de_dT pres patm h Acc =
     (let ncells = length de_dT in
      if coupled_to_subsurface_via_temp pk \<or> coupled_to_subsurface_via_flux pk then
        fold (\<lambda>c Acc. Acc[c := Acc ! c + (if pres ! c \<ge> patm then de_dT ! c / h else 0)])
          [0..<ncells] Acc
      else
        fold (\<lambda>c Acc. Acc[c := Acc ! c + de_dT ! c / h]) [0..<ncells] Acc)"

text \<open>
  \<^verbatim>\<open>EnergyBase::AddSourcesToPrecon_\<close>: when the source depends on the temperature, its
  derivative is subtracted from the vector
  \<^verbatim>\<open>preconditioner_acc_->local_matrices()->vals\<close> (the local \<^verbatim>\<open>Acc_cells\<close> of that
  function).
\<close>

definition AddSourcesToPrecon :: "EnergyConfig \<Rightarrow> EnergyState \<Rightarrow> real \<Rightarrow> real list \<Rightarrow> real list" where
  "AddSourcesToPrecon pk S h Acc =
     (if is_source_term pk \<and> source_IsDependency pk then
        fold (\<lambda>c Acc. Acc[c := Acc ! c - S_dsource_dT S ! c]) [0..<length (S_dsource_dT S)] Acc
      else Acc)"

text \<open>
  The last block of \<^verbatim>\<open>update_precon\<close>, under the comment \<^verbatim>\<open>// Assemble\<close>.
\<close>

definition update_precon_assemble ::
  "EnergyConfig \<Rightarrow> 'a MatrixMFD_scheme \<Rightarrow> 'a MatrixMFD_scheme" where
  "update_precon_assemble pk A =
     (if coupled_to_subsurface_via_temp pk \<or> coupled_to_subsurface_via_flux pk then
        call AssembleGlobalMatrices A
      else if assemble_preconditioner pk then
        call UpdatePreconditioner (call ComputeSchurComplement (call AssembleGlobalMatrices A))
      else A)"

text \<open>
  \<^verbatim>\<open>EnergyBase::update_precon(t, up, h)\<close>. The assertion compares the time of the state
  with \<open>t\<close>; the boundary conditions and the conductivity are the collaborators'
  and enter through the operator's methods only.
\<close>

definition update_precon ::
  "EnergyConfig \<Rightarrow> EnergyState \<Rightarrow> real \<Rightarrow> real \<Rightarrow> EnergyPreconditioner \<Rightarrow>
   error + EnergyPreconditioner" where
  "update_precon pk S t h A =
     (case ASSERT (\<bar>S_time S - t\<bar> \<le> t / 10000) of
        Inl e \<Rightarrow> Inl e
      | Inr _ \<Rightarrow>
          (let A1 = call CreateMFDrhsVectors (call CreateMFDstiffnessMatrices A);
               A2 = A1\<lparr>Acc_cells := update_precon_diagonal pk (S_de_dT S)
                        (S_surface_pressure S) (S_atmospheric_pressure S) h
                        (Acc_cells A1)\<rparr>;
               A3 = A2\<lparr>preconditioner_acc_vals :=
                        AddSourcesToPrecon pk S h (preconditioner_acc_vals A2)\<rparr>;
               A4 = call MFD_ApplyBoundaryConditions A3
           in Inr (update_precon_assemble pk A4)))"

section \<open>Energy: the error norm\<close>

text \<open>
  The data of one MPI rank that \<^verbatim>\<open>EnergyBase::enorm\<close> reads: the energy and the cell
  volume of the state \<^verbatim>\<open>S_next_\<close> on the rank's owned cells, and the cell and face
  components of the residual \<^verbatim>\<open>du\<close>.
\<close>

record enorm_rank =
  energy :: "real list"
  res_c :: "real list"
  res_f :: "real list"
  cv :: "real list"

text \<open>
  \<^verbatim>\<open>MPI_Allreduce(..., MPI_MAX, MPI_COMM_WORLD)\<close>: every rank receives the maximum of the
  buffers of all ranks. The ranks of the communicator are a nonempty list; a serial run
  is the list of one rank, where the reduction returns the buffer.
\<close>

definition MPI_MAX :: "real list \<Rightarrow> real" where
  "MPI_MAX bufs = fold max (tl bufs) (hd bufs)"

text \<open>
  The cell loop of \<^verbatim>\<open>enorm\<close>, with its running maximum \<^verbatim>\<open>enorm_cell\<close> and the cell
  \<^verbatim>\<open>bad_cell\<close> where it was found.
\<close>

definition enorm_cell_loop :: "real \<Rightarrow> real \<Rightarrow> real \<Rightarrow> enorm_rank \<Rightarrow> real \<times> int" where
  "enorm_cell_loop atol rtol h r =
     fold (\<lambda>c (enorm_cell, bad_cell).
             let tmp = \<bar>h * res_c r ! c\<bar> / (atol * cv r ! c * 2000000 + rtol * \<bar>energy r ! c\<bar>)
             in if tmp > enorm_cell then (tmp, int c) else (enorm_cell, bad_cell))
       [0..<length (res_c r)] (0, - 1)"

text \<open>
  The face loop of \<^verbatim>\<open>enorm\<close>.
\<close>

definition enorm_face_loop :: "real \<Rightarrow> real \<Rightarrow> enorm_rank \<Rightarrow> real" where
  "enorm_face_loop atol rtol r =
     fold (\<lambda>f enorm_face.
             let tmp = 1 / 10000 * \<bar>res_f r ! f\<bar> / (atol + rtol * (27315 / 100))
             in max enorm_face tmp)
       [0..<length (res_f r)] 0"

text \<open>
  \<^verbatim>\<open>EnergyBase::enorm\<close> on all ranks: \<open>h\<close> is the step
  \<^verbatim>\<open>S_next_->time() - S_inter_->time()\<close>. When the verbose object admits medium
  output, the block that prints the norms first replaces \<^verbatim>\<open>enorm_cell\<close> and
  \<^verbatim>\<open>enorm_face\<close> by their maxima over the ranks. The value returned is the reduced
  maximum of the two; the printed text is not part of the model.
\<close>

definition enorm :: "VerboseObject \<Rightarrow> real \<Rightarrow> real \<Rightarrow> real \<Rightarrow> enorm_rank list \<Rightarrow> real" where
  "enorm vo atol rtol h ranks =
     (let enorm_val = (\<lambda>r.
            let enorm_cell = fst (enorm_cell_loop atol rtol h r);
                enorm_face = enorm_face_loop atol rtol r;
                (enorm_cell, enorm_face) =
                  (if vo VERB_MEDIUM
                   then (MPI_MAX (map (\<lambda>r. fst (enorm_cell_loop atol rtol h r)) ranks),
                         MPI_MAX (map (enorm_face_loop atol rtol) ranks))
                   else (enorm_cell, enorm_face))
            in max enorm_face enorm_cell)
      in MPI_MAX (map enorm_val ranks))"

text \<open>
  The two ratios in the words of the specification: the cell-wise ratio of the residual
  over the step to the energy scale, and the face-wise ratio of the flux mismatch, each
  with the absolute tolerance \<open>atol\<close> and the relative tolerance \<open>rtol\<close>.
\<close>

definition cell_ratio :: "real \<Rightarrow> real \<Rightarrow> real \<Rightarrow> enorm_rank \<Rightarrow> nat \<Rightarrow> real" where
  "cell_ratio atol rtol h r c =
     \<bar>h * res_c r ! c\<bar> / (atol * (cv r ! c * 2000000) + rtol * \<bar>energy r ! c\<bar>)"

definition face_ratio :: "real \<Rightarrow> real \<Rightarrow> enorm_rank \<Rightarrow> nat \<Rightarrow> real" where
  "face_ratio atol rtol r f = (\<bar>res_f r ! f\<bar> / 10000) / (atol + rtol * (27315 / 100))"

section \<open>Richards flow: the admissibility check\<close>

text \<open>
  \<^verbatim>\<open>ENorm_t\<close>, the pair of a value and a global id that the reductions
  \<^verbatim>\<open>MPI_MINLOC\<close> and \<^verbatim>\<open>MPI_MAXLOC\<close> work on.
\<close>

record ENorm_t =
  ENorm_value :: real
  ENorm_gid :: int

text \<open>
  What one rank holds when \<^verbatim>\<open>Richards::IsAdmissible(up)\<close> runs: the trial iterate
  \<^verbatim>\<open>up->Data()\<close> and the maps \<^verbatim>\<open>pres_c.Map().GID\<close> and \<^verbatim>\<open>pres_f.Map().GID\<close> from
  local to global ids.
\<close>

record admissible_rank =
  up_Data :: CompositeVector
  cell_Map_GID :: "int \<Rightarrow> int"
  face_Map_GID :: "int \<Rightarrow> int"

text \<open>
  The lines the check writes to the verbose object: the announcement (extreme), the
  global minimum and maximum (high), and on rejection (medium) the notice with one line
  for the cells and, if the iterate has faces, one line for the faces. The source labels
  both lines \<^verbatim>\<open>cells (min/max)\<close>.
\<close>

datatype admissible_output =
    Checking_admissibility
  | Admissible_p real real
  | Not_admissible
  | Cells_min_max ENorm_t ENorm_t

text \<open>
  The loop over the cells, and the identical loop over the faces: the running minimum
  and maximum with the local ids where they were found, starting from
  \<^verbatim>\<open>1.e15\<close>, \<^verbatim>\<open>-1\<close>, \<^verbatim>\<open>-1.e15\<close>, \<^verbatim>\<open>-1\<close>.
\<close>

definition extrema_loop :: "real list \<Rightarrow> real \<times> int \<times> real \<times> int" where
  "extrema_loop pres_c =
     fold (\<lambda>c (minT_c, min_c, maxT_c, max_c).
             let (minT_c, min_c) =
                   (if pres_c ! c < minT_c then (pres_c ! c, int c) else (minT_c, min_c));
                 (maxT_c, max_c) =
                   (if pres_c ! c > maxT_c then (pres_c ! c, int c) else (maxT_c, max_c))
             in (minT_c, min_c, maxT_c, max_c))
       [0..<length pres_c] (10 ^ 15, - 1, - (10 ^ 15), - 1)"

text \<open>
  The reductions over the ranks of the communicator, a nonempty list: \<^verbatim>\<open>MinAll\<close> and
  \<^verbatim>\<open>MaxAll\<close> of the mesh's communicator, and \<^verbatim>\<open>MPI_Allreduce\<close> with the operations
  \<^verbatim>\<open>MPI_MINLOC\<close> and \<^verbatim>\<open>MPI_MAXLOC\<close>, which on equal values keep the smaller index.
\<close>

definition MinAll :: "real list \<Rightarrow> real" where
  "MinAll bufs = fold min (tl bufs) (hd bufs)"

definition MaxAll :: "real list \<Rightarrow> real" where
  "MaxAll bufs = fold max (tl bufs) (hd bufs)"

definition MPI_MINLOC :: "ENorm_t \<Rightarrow> ENorm_t \<Rightarrow> ENorm_t" where
  "MPI_MINLOC a b =
     (if ENorm_value a < ENorm_value b then a
      else if ENorm_value b < ENorm_value a then b
      else \<lparr>ENorm_value = ENorm_value a, ENorm_gid = min (ENorm_gid a) (ENorm_gid b)\<rparr>)"

definition MPI_MAXLOC :: "ENorm_t \<Rightarrow> ENorm_t \<Rightarrow> ENorm_t" where
  "MPI_MAXLOC a b =
     (if ENorm_value a > ENorm_value b then a
      else if ENorm_value b > ENorm_value a then b
      else \<lparr>ENorm_value = ENorm_value a, ENorm_gid = min (ENorm_gid a) (ENorm_gid b)\<rparr>)"

definition MPI_Allreduce :: "('a \<Rightarrow> 'a \<Rightarrow> 'a) \<Rightarrow> 'a list \<Rightarrow> 'a" where
  "MPI_Allreduce op bufs = fold (\<lambda>b acc. op acc b) (tl bufs) (hd bufs)"

text \<open>
  The face extrema of a rank keep their initial values when the iterate has no face
  component.
\<close>

definition face_extrema :: "CompositeVector \<Rightarrow> real \<times> int \<times> real \<times> int" where
  "face_extrema pres =
     (case cv_face pres of
        Some pres_f \<Rightarrow> extrema_loop pres_f
      | None \<Rightarrow> (10 ^ 15, - 1, - (10 ^ 15), - 1))"

text \<open>
  The local minimum and maximum \<^verbatim>\<open>minT\<close>, \<^verbatim>\<open>maxT\<close> of a rank before the reduction.
\<close>

definition local_min_max :: "CompositeVector \<Rightarrow> real \<times> real" where
  "local_min_max pres =
     (let (minT_c, min_c, maxT_c, max_c) = extrema_loop (cv_cell pres);
          (minT_f, min_f, maxT_f, max_f) = face_extrema pres
      in if cv_face pres \<noteq> None then (min minT_c minT_f, max maxT_c maxT_f)
         else (minT_c, maxT_c))"

text \<open>
  \<^verbatim>\<open>Richards::IsAdmissible\<close> as rank \<open>me\<close> runs it, with the result and the lines
  written. The argument is \<^verbatim>\<open>const\<close> and no member is assigned: the function has no
  state to return.
\<close>

definition IsAdmissible ::
  "VerboseObject \<Rightarrow> admissible_rank list \<Rightarrow> nat \<Rightarrow> bool \<times> admissible_output list" where
  "IsAdmissible vo ranks me =
     (let out = (if vo VERB_EXTREME then [Checking_admissibility] else []);
          maxT = MaxAll (map (\<lambda>r. snd (local_min_max (up_Data r))) ranks);
          minT = MinAll (map (\<lambda>r. fst (local_min_max (up_Data r))) ranks);
          out = out @ (if vo VERB_HIGH then [Admissible_p minT maxT] else [])
      in if minT < - (10 ^ 9) \<or> maxT > 10 ^ 8 then
           (if vo VERB_MEDIUM then
              (let local_minT_c = (\<lambda>r. case extrema_loop (cv_cell (up_Data r)) of
                       (minT_c, min_c, maxT_c, max_c) \<Rightarrow>
                         \<lparr>ENorm_value = minT_c, ENorm_gid = cell_Map_GID r min_c\<rparr>);
                   local_maxT_c = (\<lambda>r. case extrema_loop (cv_cell (up_Data r)) of
                       (minT_c, min_c, maxT_c, max_c) \<Rightarrow>
                         \<lparr>ENorm_value = maxT_c, ENorm_gid = cell_Map_GID r max_c\<rparr>);
                   global_minT_c = MPI_Allreduce MPI_MINLOC (map local_minT_c ranks);
                   global_maxT_c = MPI_Allreduce MPI_MAXLOC (map local_maxT_c ranks);
                   out = out @ [Not_admissible, Cells_min_max global_minT_c global_maxT_c]
               in if cv_face (up_Data (ranks ! me)) \<noteq> None then
                    (let local_minT_f = (\<lambda>r. case face_extrema (up_Data r) of
                             (minT_f, min_f, maxT_f, max_f) \<Rightarrow>
                               \<lparr>ENorm_value = minT_f, ENorm_gid = face_Map_GID r min_f\<rparr>);
                         local_maxT_f = (\<lambda>r. case face_extrema (up_Data r) of
                             (minT_f, min_f, maxT_f, max_f) \<Rightarrow>
                               \<lparr>ENorm_value = maxT_f, ENorm_gid = face_Map_GID r max_f\<rparr>);
                         global_minT_f = MPI_Allreduce MPI_MINLOC (map local_minT_f ranks);
                         global_maxT_f = MPI_Allreduce MPI_MAXLOC (map local_maxT_f ranks)
                     in (False, out @ [Cells_min_max global_minT_f global_maxT_f]))
                  else (False, out))
            else (False, out))
         else (True, out))"

text \<open>
  The unknowns of a rank, and what it means for a reported pair to be extremal: the
  value bounds every entry of every rank and is the entry of some rank at the reported
  global id, unless no entry lies beyond the initial value, which is then the value
  reported.
\<close>

definition cell_values :: "admissible_rank \<Rightarrow> real list" where
  "cell_values r = cv_cell (up_Data r)"

definition face_values :: "admissible_rank \<Rightarrow> real list" where
  "face_values r = (case cv_face (up_Data r) of None \<Rightarrow> [] | Some pres_f \<Rightarrow> pres_f)"

definition extremal_min ::
  "(admissible_rank \<Rightarrow> real list) \<Rightarrow> (admissible_rank \<Rightarrow> int \<Rightarrow> int) \<Rightarrow>
   admissible_rank list \<Rightarrow> ENorm_t \<Rightarrow> bool" where
  "extremal_min vals GID ranks e \<longleftrightarrow>
     (\<forall>r\<in>set ranks. \<forall>x\<in>set (vals r). ENorm_value e \<le> x) \<and>
     ((\<exists>r\<in>set ranks. \<exists>c<length (vals r).
          vals r ! c = ENorm_value e \<and> GID r (int c) = ENorm_gid e)
      \<or> ENorm_value e = 10 ^ 15)"

definition extremal_max ::
  "(admissible_rank \<Rightarrow> real list) \<Rightarrow> (admissible_rank \<Rightarrow> int \<Rightarrow> int) \<Rightarrow>
   admissible_rank list \<Rightarrow> ENorm_t \<Rightarrow> bool" where
  "extremal_max vals GID ranks e \<longleftrightarrow>
     (\<forall>r\<in>set ranks. \<forall>x\<in>set (vals r). x \<le> ENorm_value e) \<and>
     ((\<exists>r\<in>set ranks. \<exists>c<length (vals r).
          vals r ! c = ENorm_value e \<and> GID r (int c) = ENorm_gid e)
      \<or> ENorm_value e = - (10 ^ 15))"

text \<open>
  A verbose object set to a level admits the output of that level and below.
\<close>

definition level_of :: "EVerbosityLevel \<Rightarrow> nat" where
  "level_of l = (case l of VERB_NONE \<Rightarrow> 0 | VERB_LOW \<Rightarrow> 1 | VERB_MEDIUM \<Rightarrow> 2
                 | VERB_HIGH \<Rightarrow> 3 | VERB_EXTREME \<Rightarrow> 4)"

definition vo_at :: "EVerbosityLevel \<Rightarrow> VerboseObject" where
  "vo_at v l \<longleftrightarrow> level_of l \<le> level_of v"

text \<open>
  A rank whose second cell has left the admissible range.
\<close>

definition scenario_rank :: admissible_rank where
  "scenario_rank =
     \<lparr>up_Data = \<lparr>cv_cell = [101325, 200000000], cv_face = Some [5, - 7],
                  cv_boundary_face = None\<rparr>,
      cell_Map_GID = (\<lambda>c. c + 10),
      face_Map_GID = (\<lambda>f. f + 100)\<rparr>"

section \<open>A scenario for the composer\<close>

text \<open>
  A column of two cells on one rank. Faces 0 to 4 are owned, face 5 is a ghost face.
  Face 4 lies between the two cells; every other face has one adjacent cell. Face 0
  carries a prescribed pressure, face 1 a prescribed flux, face 2 is a seepage face with
  threshold 0 (the scenario of the specification: boundary pressure 5 there), faces 3, 4
  and 5 carry no condition. The surface mesh has one cell, over face 1; no coupling is
  switched on.
\<close>

definition scenario_mesh :: Mesh where
  "scenario_mesh =
     \<lparr>num_faces_used = 6,
      num_faces_owned = 5,
      face_get_cells = (\<lambda>f. if f = 4 then [0, 1] else if f = 5 then [1] else [0]),
      face_area = (\<lambda>f. 2),
      face_map_GID = int,
      exterior_face_map_LID = (\<lambda>g. g)\<rparr>"

definition scenario_state :: FlowState where
  "scenario_state =
     \<lparr>numerical_rel_perm = [1, 1 / 2, 1, 1, 1, 1],
      temperature = [280, 280, 280, 280, 280, 280],
      pressure = \<lparr>cv_cell = [101325, 101325],
                  cv_face = Some [100, 0, 5, 0, 0, 0],
                  cv_boundary_face = None\<rparr>,
      surface_pressure = [101400],
      surface_subsurface_flux = [3],
      surface_entity_get_parent = (\<lambda>c. 1)\<rparr>"

definition scenario_pk :: Richards where
  "scenario_pk =
     \<lparr>coupled_to_surface_via_head = False,
      coupled_to_surface_via_flux = False,
      infiltrate_only_if_unfrozen = False,
      bc_pressure = [(0, 100)],
      bc_flux = [(1, 6)],
      bc_seepage = [(2, 0)],
      bc_markers = [OPERATOR_BC_NEUMANN, OPERATOR_BC_NONE, OPERATOR_BC_NONE, OPERATOR_BC_NONE,
                    OPERATOR_BC_DIRICHLET, OPERATOR_BC_NONE],
      bc_values = [1, 2, 3, 4, 5, 6],
      mesh = scenario_mesh,
      S_next = scenario_state,
      perm_scale = 1,
      richards_is_source_term = False,
      richards_explicit_source = False,
      update_flux = UPDATE_FLUX_ITERATION,
      clobber_surf_kr = False,
      symmetric = False,
      Krel_method = UPWIND_METHOD_GRAVITY,
      upwind_from_prev_flux = False,
      vapor_diffusion = False,
      precon_used = False,
      precon_wc = False,
      modify_predictor_with_consistent_faces = False,
      modify_predictor_bc_flux = False,
      modify_predictor_first_bc_flux = False,
      modify_predictor_wc = False\<rparr>"

text \<open>
  A factory that returns the boundary functions of the scenario, and two parameter
  lists: one that switches both coupling modes on, one that couples through the flux
  only.
\<close>

definition scenario_factory :: FlowBCFactory where
  "scenario_factory =
     \<lparr>CreatePressure = (\<lambda>l. [(0, 100)]),
      CreateMassFlux = (\<lambda>l. [(1, 6)]),
      CreateSeepageFacePressure = (\<lambda>l. [(2, 0)])\<rparr>"

definition plist_both :: ParameterList where
  "plist_both =
     [(''boundary conditions'', PList []),
      (''coupled to surface via flux'', PBool True),
      (''coupled to surface via head'', PBool True)]"

definition plist_flux :: ParameterList where
  "plist_flux =
     [(''boundary conditions'', PList []),
      (''coupled to surface via flux'', PBool True)]"

section \<open>Loops over an index range\<close>

lemma fold_upt_pointwise_length:
  "length (fold (\<lambda>c A. A[c := g c (A ! c)]) [0..<n] xs) = length xs"
  by (induction n) simp_all

lemma fold_upt_pointwise_nth:
  "i < length xs \<Longrightarrow>
   fold (\<lambda>c A. A[c := g c (A ! c)]) [0..<n] xs ! i = (if i < n then g i (xs ! i) else xs ! i)"
proof (induction n)
  case 0
  then show ?case by simp
next
  case (Suc n)
  then show ?case
    by (auto simp add: fold_upt_pointwise_length nth_list_update less_Suc_eq)
qed

lemma fold_upt_add_nth:
  "i < length xs \<Longrightarrow>
   fold (\<lambda>c A. A[c := A ! c + k c]) [0..<n] xs ! i = (if i < n then xs ! i + k i else xs ! i)"
  using fold_upt_pointwise_nth [where g = "\<lambda>c x. x + k c"] by simp

lemma fold_upt_guarded_length:
  "length (fold (\<lambda>f pf. if P f then pf[f := v f] else pf) [0..<n] xs) = length xs"
  by (induction n) simp_all

lemma fold_upt_guarded_nth:
  "i < length xs \<Longrightarrow>
   fold (\<lambda>f pf. if P f then pf[f := v f] else pf) [0..<n] xs ! i =
     (if i < n \<and> P i then v i else xs ! i)"
proof (induction n)
  case 0
  then show ?case by simp
next
  case (Suc n)
  then show ?case
    by (auto simp add: fold_upt_guarded_length nth_list_update less_Suc_eq)
qed

section \<open>Richards flow: the composer's loops as lists of assignments\<close>

lemma assign_bcs_Nil [simp]: "assign_bcs [] b = b"
  by (simp add: assign_bcs_def)

lemma assign_bcs_Cons [simp]:
  "assign_bcs ((f, k, v) # as) (ms, vs) = assign_bcs as (ms[f := k], vs[f := v])"
  by (simp add: assign_bcs_def)

lemma assign_bcs_append: "assign_bcs (as @ bs) b = assign_bcs bs (assign_bcs as b)"
  by (simp add: assign_bcs_def)

lemma assign_bcs_length:
  "length (fst (assign_bcs as (ms, vs))) = length ms \<and> length (snd (assign_bcs as (ms, vs))) = length vs"
  by (induction as arbitrary: ms vs) auto

lemma assign_bcs_nth:
  assumes "i < length ms" and "i < length vs"
  shows "(fst (assign_bcs as (ms, vs)) ! i, snd (assign_bcs as (ms, vs)) ! i) =
           (case map_of (rev as) i of None \<Rightarrow> (ms ! i, vs ! i) | Some kv \<Rightarrow> kv)"
  using assms
proof (induction as arbitrary: ms vs)
  case Nil
  then show ?case by simp
next
  case (Cons a as)
  obtain f k v where a: "a = (f, k, v)"
    by (cases a)
  have "i < length (ms[f := k])" "i < length (vs[f := v])"
    using Cons.prems by simp_all
  from Cons.IH [OF this] show ?case
    using Cons.prems
    by (auto simp add: a map_add_def nth_list_update split: option.splits)
qed

lemma map_of_map_entry:
  "map_of (map (\<lambda>(f, v). (f, g f v)) bcs) i = map_option (g i) (map_of bcs i)"
  by (induction bcs) auto

lemma map_of_map_find:
  "map_of (map (\<lambda>c. (parent c, g c)) cs) i = map_option g (find (\<lambda>c. parent c = i) cs)"
  by (induction cs) auto

lemma fold_assign:
  assumes "\<And>x ms vs. step x (ms, vs) = (case entry x of (f, k, v) \<Rightarrow> (ms[f := k], vs[f := v]))"
  shows "fold step xs b = assign_bcs (map entry xs) b"
proof (induction xs arbitrary: b)
  case Nil
  then show ?case by simp
next
  case (Cons x xs)
  obtain ms vs where b: "b = (ms, vs)"
    by (cases b)
  obtain f k v where e: "entry x = (f, k, v)"
    by (cases "entry x")
  show ?case
    by (simp add: b e assms Cons.IH)
qed

lemma list_update_scale:
  "vs[f := (vs[f := v]) ! f / k] = vs[f := v / k]" for vs :: "real list"
  by (cases "f < length vs") (simp_all add: list_update_beyond)

lemma bc_dirichlet_assign:
  "bc_dirichlet bcs b = assign_bcs (map (\<lambda>(f, v). (f, OPERATOR_BC_DIRICHLET, v)) bcs) b"
  unfolding bc_dirichlet_def by (rule fold_assign) (simp add: case_prod_beta)

lemma bc_neumann_assign:
  "bc_neumann kr rel_perm bcs b =
     assign_bcs (map (\<lambda>(f, v). (f, OPERATOR_BC_NEUMANN, flux_value kr rel_perm f v)) bcs) b"
  unfolding bc_neumann_def
  by (rule fold_assign) (simp add: case_prod_beta Let_def flux_value_def list_update_scale)

lemma bc_neumann_unfrozen_assign:
  "bc_neumann_unfrozen kr rel_perm temp bcs b =
     assign_bcs (map (\<lambda>(f, v). (f, OPERATOR_BC_NEUMANN,
        if temp ! f > 27315 / 100 then flux_value kr rel_perm f v else 0)) bcs) b"
  unfolding bc_neumann_unfrozen_def
  by (rule fold_assign) (simp add: case_prod_beta Let_def flux_value_def list_update_scale)

lemma bc_surface_head_assign:
  "bc_surface_head parent head b =
     assign_bcs (map (\<lambda>c. (parent c, OPERATOR_BC_DIRICHLET, head ! c)) [0..<length head]) b"
  unfolding bc_surface_head_def by (rule fold_assign) (simp add: Let_def)

lemma bc_surface_flux_assign:
  "bc_surface_flux kr m rel_perm parent flux b =
     assign_bcs (map (\<lambda>c. (parent c, OPERATOR_BC_NEUMANN,
        flux_value kr rel_perm (parent c) (flux ! c / face_area m (parent c)))) [0..<length flux]) b"
  unfolding bc_surface_flux_def
  by (rule fold_assign) (simp add: Let_def flux_value_def list_update_scale)

lemma BoundaryValue_Inl_iff:
  "(\<exists>e. BoundaryValue m pres f = Inl e) \<longleftrightarrow> cv_face pres = None \<and> cv_boundary_face pres = None"
  by (simp add: BoundaryValue_def Let_def split: option.splits)

lemma bc_seepage_loop_assign:
  assumes "cv_face pres \<noteq> None \<or> cv_boundary_face pres \<noteq> None"
  shows "bc_seepage_loop m pres bcs b =
     Inr (assign_bcs (map (\<lambda>(f, v). (f, seepage_pair (projr (BoundaryValue m pres f)) v)) bcs) b)"
proof (induction bcs arbitrary: b)
  case Nil
  then show ?case by simp
next
  case (Cons x bcs)
  obtain f v where x: "x = (f, v)" by (cases x)
  obtain ms vs where b: "b = (ms, vs)" by (cases b)
  obtain p where p: "BoundaryValue m pres f = Inr p"
    using assms BoundaryValue_Inl_iff [of m pres f] by (cases "BoundaryValue m pres f") auto
  show ?case
    by (simp add: x b p Cons.IH seepage_pair_def)
qed

lemma bc_seepage_loop_error:
  assumes "cv_face pres = None" and "cv_boundary_face pres = None" and "bcs \<noteq> []"
  shows "bc_seepage_loop m pres bcs b = Inl (Message (''No component is defined for boundary faces'' @ [CHR 0x0A]))"
proof -
  obtain f v bcs' where "bcs = (f, v) # bcs'"
    using assms(3) by (cases bcs) auto
  moreover obtain ms vs where "b = (ms, vs)" by (cases b)
  ultimately show ?thesis
    using assms(1,2) by (simp add: BoundaryValue_def)
qed

lemma bc_initialize_eq:
  assumes "length ms = length vs"
  shows "bc_initialize (ms, vs) = (replicate (length ms) OPERATOR_BC_NONE, replicate (length vs) 0)"
proof -
  have "n \<le> length ms \<Longrightarrow>
    fold (\<lambda>n (ms, vs). (ms[n := OPERATOR_BC_NONE], vs[n := 0::real])) [0..<n] (ms, vs)
      = (replicate n OPERATOR_BC_NONE @ drop n ms, replicate n 0 @ drop n vs)" for n
  proof (induction n)
    case 0
    then show ?case by simp
  next
    case (Suc n)
    then have n: "n < length ms" "n < length vs"
      using assms by simp_all
    have "(replicate n OPERATOR_BC_NONE @ drop n ms)[n := OPERATOR_BC_NONE]
        = replicate (Suc n) OPERATOR_BC_NONE @ drop (Suc n) ms"
      using n(1)
      by (simp add: list_update_append replicate_append_same flip: Cons_nth_drop_Suc)
    moreover have "(replicate n 0 @ drop n vs)[n := 0]
        = replicate (Suc n) 0 @ drop (Suc n) vs"
      using n(2)
      by (simp add: list_update_append replicate_append_same flip: Cons_nth_drop_Suc)
    ultimately show ?case
      using Suc by simp
  qed
  from this [of "length ms"] show ?thesis
    using assms by (simp add: bc_initialize_def)
qed

lemma bc_default_eq:
  assumes "length ms = length vs"
  shows "bc_default m (ms, vs) =
     (map (\<lambda>j. if j < num_faces_owned m \<and> ms ! j = OPERATOR_BC_NONE \<and> length (face_get_cells m j) = 1
                then OPERATOR_BC_NEUMANN else ms ! j) [0..<length ms],
      map (\<lambda>j. if j < num_faces_owned m \<and> ms ! j = OPERATOR_BC_NONE \<and> length (face_get_cells m j) = 1
                then 0 else vs ! j) [0..<length vs])"
proof -
  define step where "step = (\<lambda>f (ms, vs).
             if ms ! f = OPERATOR_BC_NONE then
               (let ncells = length (face_get_cells m f)
                in if ncells = 1 then (ms[f := OPERATOR_BC_NEUMANN], vs[f := 0::real]) else (ms, vs))
             else (ms, vs))"
  define A where "A n = map (\<lambda>j. if j < n \<and> ms ! j = OPERATOR_BC_NONE \<and> length (face_get_cells m j) = 1
                then OPERATOR_BC_NEUMANN else ms ! j) [0..<length ms]" for n
  define B where "B n = map (\<lambda>j. if j < n \<and> ms ! j = OPERATOR_BC_NONE \<and> length (face_get_cells m j) = 1
                then 0 else vs ! j) [0..<length vs]" for n
  have "fold step [0..<n] (ms, vs) = (A n, B n)" for n
  proof (induction n)
    case 0
    show ?case
      by (simp add: A_def B_def map_nth)
  next
    case (Suc n)
    have s: "fold step [0..<Suc n] (ms, vs) = step n (A n, B n)"
      using Suc by simp
    show ?case
    proof (cases "n < length ms")
      case True
      then have "A n ! n = ms ! n"
        by (simp add: A_def)
      then have "step n (A n, B n) =
          (if ms ! n = OPERATOR_BC_NONE \<and> length (face_get_cells m n) = 1
           then ((A n)[n := OPERATOR_BC_NEUMANN], (B n)[n := 0]) else (A n, B n))"
        by (simp add: step_def Let_def)
      also have "\<dots> = (A (Suc n), B (Suc n))"
      proof -
        have "(A n)[n := OPERATOR_BC_NEUMANN] = A (Suc n)" "(B n)[n := 0] = B (Suc n)"
          if "ms ! n = OPERATOR_BC_NONE" "length (face_get_cells m n) = 1"
          using that True assms
          by (auto intro!: nth_equalityI simp add: A_def B_def nth_list_update less_Suc_eq)
        moreover have "A n = A (Suc n)" "B n = B (Suc n)"
          if "\<not> (ms ! n = OPERATOR_BC_NONE \<and> length (face_get_cells m n) = 1)"
          using that True assms
          by (auto intro!: nth_equalityI simp add: A_def B_def less_Suc_eq)
        ultimately show ?thesis
          by auto
      qed
      finally show ?thesis
        using s by simp
    next
      case False
      then have "step n (A n, B n) = (A n, B n)"
        using assms by (simp add: step_def Let_def A_def B_def list_update_beyond)
      moreover have "A (Suc n) = A n" "B (Suc n) = B n"
        using False assms by (auto intro!: nth_equalityI simp add: A_def B_def)
      ultimately show ?thesis
        using s by simp
    qed
  qed
  from this [of "num_faces_owned m"] show ?thesis
    by (simp add: bc_default_def step_def A_def B_def)
qed

lemma bc_seepage_loop_Inr:
  assumes "bc_seepage_loop m pres bcs b = Inr b'"
  shows "b' = assign_bcs (map (\<lambda>(f, v). (f, seepage_pair (boundary_pressure_at m pres f) v)) bcs) b"
  using assms
proof (induction bcs arbitrary: b)
  case Nil
  then show ?case by simp
next
  case (Cons x bcs)
  obtain f v where x: "x = (f, v)" by (cases x)
  obtain ms vs where b: "b = (ms, vs)" by (cases b)
  from Cons.prems obtain p where p: "BoundaryValue m pres f = Inr p"
    by (cases "BoundaryValue m pres f") (simp_all add: x b)
  with Cons.prems have "bc_seepage_loop m pres bcs
      (if p < v then (ms[f := OPERATOR_BC_NEUMANN], vs[f := 0])
       else (ms[f := OPERATOR_BC_DIRICHLET], vs[f := v])) = Inr b'"
    by (simp add: x b)
  from Cons.IH [OF this] show ?case
    by (simp add: x b p seepage_pair_def boundary_pressure_at_def)
qed

lemma bc_seepage_loop_Inl:
  assumes "bc_seepage_loop m pres bcs b = Inl e"
  shows "bcs \<noteq> [] \<and> cv_face pres = None \<and> cv_boundary_face pres = None
       \<and> e = Message (''No component is defined for boundary faces'' @ [CHR 0x0A])"
proof (cases "cv_face pres \<noteq> None \<or> cv_boundary_face pres \<noteq> None")
  case True
  from bc_seepage_loop_assign [OF this] assms show ?thesis by simp
next
  case False
  have "bcs \<noteq> []"
    using assms by (cases bcs) auto
  with False bc_seepage_loop_error [of pres bcs m b] assms show ?thesis
    by simp
qed

lemma UpdateBoundaryConditions_Inr:
  assumes "UpdateBoundaryConditions kr pk = Inr pk'"
    and "length (bc_markers pk) = length (bc_values pk)"
  shows "pk' = pk\<lparr>
      bc_markers := fst (bc_default (mesh pk) (assign_bcs (pass_assignments kr pk)
        (replicate (length (bc_markers pk)) OPERATOR_BC_NONE, replicate (length (bc_values pk)) 0))),
      bc_values := snd (bc_default (mesh pk) (assign_bcs (pass_assignments kr pk)
        (replicate (length (bc_markers pk)) OPERATOR_BC_NONE, replicate (length (bc_values pk)) 0)))\<rparr>"
proof -
  let ?S = "S_next pk"
  let ?b0 = "(replicate (length (bc_markers pk)) OPERATOR_BC_NONE, replicate (length (bc_values pk)) (0::real))"
  let ?A1 = "map (\<lambda>(f, v). (f, OPERATOR_BC_DIRICHLET, v)) (bc_pressure pk)"
  let ?A2 = "map (\<lambda>(f, q). (f, OPERATOR_BC_NEUMANN,
                if infiltrate_only_if_unfrozen pk \<and> \<not> temperature ?S ! f > 27315 / 100 then 0
                else flux_value kr (numerical_rel_perm ?S) f q)) (bc_flux pk)"
  have init: "bc_initialize (bc_markers pk, bc_values pk) = ?b0"
    using assms(2) by (rule bc_initialize_eq)
  have flux: "(if \<not> infiltrate_only_if_unfrozen pk
        then bc_neumann kr (numerical_rel_perm ?S) (bc_flux pk) b
        else bc_neumann_unfrozen kr (numerical_rel_perm ?S) (temperature ?S) (bc_flux pk) b)
      = assign_bcs ?A2 b" for b
    by (auto simp add: bc_neumann_assign bc_neumann_unfrozen_assign
        intro!: arg_cong [where f = "\<lambda>as. assign_bcs as b"])
  let ?b2 = "assign_bcs ?A2 (assign_bcs ?A1 ?b0)"
  obtain b3 where b3: "bc_seepage_loop (mesh pk) (pressure ?S) (bc_seepage pk) ?b2 = Inr b3"
    using assms(1)
    by (auto simp add: UpdateBoundaryConditions_def Let_def init flux bc_dirichlet_assign
        split: sum.splits)
  have pk': "pk' = (let b = (if coupled_to_surface_via_head pk
                       then bc_surface_head (surface_entity_get_parent ?S) (surface_pressure ?S) b3
                       else b3);
                  b = (if coupled_to_surface_via_flux pk
                       then bc_surface_flux kr (mesh pk) (numerical_rel_perm ?S)
                              (surface_entity_get_parent ?S) (surface_subsurface_flux ?S) b
                       else b);
                  b = bc_default (mesh pk) b
              in pk\<lparr>bc_markers := fst b, bc_values := snd b\<rparr>)"
    using assms(1) b3
    by (simp add: UpdateBoundaryConditions_def Let_def init flux bc_dirichlet_assign)
  have "b3 = assign_bcs (map (\<lambda>(f, v). (f, seepage_pair
      (boundary_pressure_at (mesh pk) (pressure ?S) f) v)) (bc_seepage pk)) ?b2"
    using b3 by (rule bc_seepage_loop_Inr)
  then show ?thesis
    unfolding pk'
    by (simp add: Let_def pass_assignments_def assign_bcs_append bc_surface_head_assign
        bc_surface_flux_assign)
qed

lemma map_of_rev_distinct:
  "distinct (map fst xs) \<Longrightarrow> map_of (rev xs) = map_of xs"
proof (induction xs)
  case Nil
  then show ?case by simp
next
  case (Cons x xs)
  then have IH: "map_of (rev xs) = map_of xs" and x: "fst x \<notin> fst ` set xs"
    by simp_all
  from x have "map_of xs (fst x) = None"
    by (simp add: map_of_eq_None_iff)
  then show ?case
    by (cases x) (auto simp add: IH map_add_def fun_eq_iff split: option.splits)
qed

lemma map_of_rev_entry:
  assumes "distinct (map fst bcs)"
  shows "map_of (rev (map (\<lambda>(f, v). (f, g f v)) bcs)) i = map_option (g i) (map_of bcs i)"
proof -
  from assms have "distinct (map fst (map (\<lambda>(f, v). (f, g f v)) bcs))"
    by (simp add: case_prod_beta comp_def)
  then have "map_of (rev (map (\<lambda>(f, v). (f, g f v)) bcs)) = map_of (map (\<lambda>(f, v). (f, g f v)) bcs)"
    by (rule map_of_rev_distinct)
  then show ?thesis
    by (simp add: map_of_map_entry)
qed

lemma map_of_rev_find:
  assumes "distinct (map parent cs)"
  shows "map_of (rev (map (\<lambda>c. (parent c, g c)) cs)) i = map_option g (find (\<lambda>c. parent c = i) cs)"
proof -
  from assms have "distinct (map fst (map (\<lambda>c. (parent c, g c)) cs))"
    by (simp add: comp_def)
  then have "map_of (rev (map (\<lambda>c. (parent c, g c)) cs)) = map_of (map (\<lambda>c. (parent c, g c)) cs)"
    by (rule map_of_rev_distinct)
  then show ?thesis
    by (simp add: map_of_map_find)
qed

lemma find_parent: "find (\<lambda>c. parent c = f) cs = Some c \<Longrightarrow> parent c = f"
  by (induction cs) (auto split: if_splits)

lemma map_of_rev_append5:
  "map_of (rev (A1 @ A2 @ A3 @ A4 @ A5)) f =
     (case map_of (rev A5) f of Some kv \<Rightarrow> Some kv | None \<Rightarrow>
     (case map_of (rev A4) f of Some kv \<Rightarrow> Some kv | None \<Rightarrow>
     (case map_of (rev A3) f of Some kv \<Rightarrow> Some kv | None \<Rightarrow>
     (case map_of (rev A2) f of Some kv \<Rightarrow> Some kv | None \<Rightarrow> map_of (rev A1) f))))"
  by (simp add: map_add_def split: option.splits)

lemma default_after_lookup:
  fixes o1 o2 o3 o4 o5 :: "(bc_kind \<times> real) option"
  assumes "\<And>kv. o1 = Some kv \<Longrightarrow> fst kv \<noteq> OPERATOR_BC_NONE"
    and "\<And>kv. o2 = Some kv \<Longrightarrow> fst kv \<noteq> OPERATOR_BC_NONE"
    and "\<And>kv. o3 = Some kv \<Longrightarrow> fst kv \<noteq> OPERATOR_BC_NONE"
    and "\<And>kv. o4 = Some kv \<Longrightarrow> fst kv \<noteq> OPERATOR_BC_NONE"
    and "\<And>kv. o5 = Some kv \<Longrightarrow> fst kv \<noteq> OPERATOR_BC_NONE"
  shows "(let pre = (case (case o5 of Some kv \<Rightarrow> Some kv | None \<Rightarrow>
                          (case o4 of Some kv \<Rightarrow> Some kv | None \<Rightarrow>
                          (case o3 of Some kv \<Rightarrow> Some kv | None \<Rightarrow>
                          (case o2 of Some kv \<Rightarrow> Some kv | None \<Rightarrow> o1)))) of
                       None \<Rightarrow> (OPERATOR_BC_NONE, 0) | Some kv \<Rightarrow> kv)
          in if D \<and> fst pre = OPERATOR_BC_NONE then (OPERATOR_BC_NEUMANN, 0) else pre)
       = (case o5 of Some kv \<Rightarrow> kv | None \<Rightarrow>
         (case o4 of Some kv \<Rightarrow> kv | None \<Rightarrow>
         (case o3 of Some kv \<Rightarrow> kv | None \<Rightarrow>
         (case o2 of Some kv \<Rightarrow> kv | None \<Rightarrow>
         (case o1 of Some kv \<Rightarrow> kv | None \<Rightarrow>
            if D then (OPERATOR_BC_NEUMANN, 0) else (OPERATOR_BC_NONE, 0))))))"
proof (cases o5)
  case (Some kv)
  with assms(5) show ?thesis by simp
next
  case n5: None
  show ?thesis
  proof (cases o4)
    case (Some kv)
    with n5 assms(4) show ?thesis by simp
  next
    case n4: None
    show ?thesis
    proof (cases o3)
      case (Some kv)
      with n5 n4 assms(3) show ?thesis by simp
    next
      case n3: None
      show ?thesis
      proof (cases o2)
        case (Some kv)
        with n5 n4 n3 assms(2) show ?thesis by simp
      next
        case n2: None
        show ?thesis
        proof (cases o1)
          case (Some kv)
          with n5 n4 n3 n2 assms(1) show ?thesis by simp
        next
          case None
          with n5 n4 n3 n2 show ?thesis by simp
        qed
      qed
    qed
  qed
qed

lemma case_map_option:
  "(case map_option g x of Some kv \<Rightarrow> kv | None \<Rightarrow> d) = (case x of Some c \<Rightarrow> g c | None \<Rightarrow> d)"
  by (cases x) simp_all

lemma seepage_pair_kind: "fst (seepage_pair p v) \<noteq> OPERATOR_BC_NONE"
  by (simp add: seepage_pair_def)

lemma pass_lookup:
  assumes "well_formed pk"
  shows "(let pre = (case map_of (rev (pass_assignments kr pk)) f of
                       None \<Rightarrow> (OPERATOR_BC_NONE, 0) | Some kv \<Rightarrow> kv)
          in if (f < num_faces_owned (mesh pk) \<and> length (face_get_cells (mesh pk) f) = 1)
                \<and> fst pre = OPERATOR_BC_NONE
             then (OPERATOR_BC_NEUMANN, 0) else pre) = bc_precedence kr pk f"
proof -
  let ?S = "S_next pk"
  let ?parent = "surface_entity_get_parent ?S"
  let ?rp = "numerical_rel_perm ?S"
  let ?A1 = "map (\<lambda>(f, v). (f, OPERATOR_BC_DIRICHLET, v)) (bc_pressure pk)"
  let ?A2 = "map (\<lambda>(f, q). (f, OPERATOR_BC_NEUMANN,
                if infiltrate_only_if_unfrozen pk \<and> \<not> temperature ?S ! f > 27315 / 100 then 0
                else flux_value kr ?rp f q)) (bc_flux pk)"
  let ?A3 = "map (\<lambda>(f, v). (f, seepage_pair (boundary_pressure_at (mesh pk) (pressure ?S) f) v))
           (bc_seepage pk)"
  let ?A4 = "if coupled_to_surface_via_head pk
          then map (\<lambda>c. (?parent c, OPERATOR_BC_DIRICHLET, surface_pressure ?S ! c))
                 [0..<length (surface_pressure ?S)]
          else []"
  let ?A5 = "if coupled_to_surface_via_flux pk
          then map (\<lambda>c. (?parent c, OPERATOR_BC_NEUMANN,
                  flux_value kr ?rp (?parent c)
                    (surface_subsurface_flux ?S ! c / face_area (mesh pk) (?parent c))))
                 [0..<length (surface_subsurface_flux ?S)]
          else []"
  have d: "distinct (map fst (bc_pressure pk))" "distinct (map fst (bc_flux pk))"
    "distinct (map fst (bc_seepage pk))"
    using assms by (simp_all add: well_formed_def)
  have o1: "map_of (rev ?A1) f = map_option (\<lambda>v. (OPERATOR_BC_DIRICHLET, v)) (map_of (bc_pressure pk) f)"
    using map_of_rev_entry [OF d(1), where g = "\<lambda>f v. (OPERATOR_BC_DIRICHLET, v)"] by simp
  have o2: "map_of (rev ?A2) f = map_option (\<lambda>q. (OPERATOR_BC_NEUMANN,
                if infiltrate_only_if_unfrozen pk \<and> \<not> temperature ?S ! f > 27315 / 100 then 0
                else flux_value kr ?rp f q)) (map_of (bc_flux pk) f)"
    by (rule map_of_rev_entry [OF d(2)])
  have o3: "map_of (rev ?A3) f = map_option
      (\<lambda>v. seepage_pair (boundary_pressure_at (mesh pk) (pressure ?S) f) v) (map_of (bc_seepage pk) f)"
    by (rule map_of_rev_entry [OF d(3)])
  have o4: "map_of (rev ?A4) f = map_option (\<lambda>c. (OPERATOR_BC_DIRICHLET, surface_pressure ?S ! c))
      (if coupled_to_surface_via_head pk
       then find (\<lambda>c. ?parent c = f) [0..<length (surface_pressure ?S)] else None)"
  proof (cases "coupled_to_surface_via_head pk")
    case True
    then have "distinct (map ?parent [0..<length (surface_pressure ?S)])"
      using assms by (simp add: well_formed_def)
    from map_of_rev_find [OF this] True show ?thesis by simp
  next
    case False
    then show ?thesis by simp
  qed
  have o5: "map_of (rev ?A5) f = map_option (\<lambda>c. (OPERATOR_BC_NEUMANN,
         flux_value kr ?rp f (surface_subsurface_flux ?S ! c / face_area (mesh pk) f)))
      (if coupled_to_surface_via_flux pk
       then find (\<lambda>c. ?parent c = f) [0..<length (surface_subsurface_flux ?S)] else None)"
  proof (cases "coupled_to_surface_via_flux pk")
    case True
    then have "distinct (map ?parent [0..<length (surface_subsurface_flux ?S)])"
      using assms by (simp add: well_formed_def)
    from map_of_rev_find [OF this, where g = "\<lambda>c. (OPERATOR_BC_NEUMANN,
                  flux_value kr ?rp (?parent c)
                    (surface_subsurface_flux ?S ! c / face_area (mesh pk) (?parent c)))" and i = f]
    have "map_of (rev ?A5) f = map_option (\<lambda>c. (OPERATOR_BC_NEUMANN,
                  flux_value kr ?rp (?parent c)
                    (surface_subsurface_flux ?S ! c / face_area (mesh pk) (?parent c))))
         (find (\<lambda>c. ?parent c = f) [0..<length (surface_subsurface_flux ?S)])"
      using True by simp
    also have "\<dots> = map_option (\<lambda>c. (OPERATOR_BC_NEUMANN,
         flux_value kr ?rp f (surface_subsurface_flux ?S ! c / face_area (mesh pk) f)))
         (find (\<lambda>c. ?parent c = f) [0..<length (surface_subsurface_flux ?S)])"
      using find_parent [of ?parent f "[0..<length (surface_subsurface_flux ?S)]"]
      by (cases "find (\<lambda>c. ?parent c = f) [0..<length (surface_subsurface_flux ?S)]") simp_all
    finally show ?thesis
      using True by simp
  next
    case False
    then show ?thesis by simp
  qed
  have A: "pass_assignments kr pk = ?A1 @ ?A2 @ ?A3 @ ?A4 @ ?A5"
    by (simp add: pass_assignments_def Let_def)
  have "(let pre = (case map_of (rev (pass_assignments kr pk)) f of
                       None \<Rightarrow> (OPERATOR_BC_NONE, 0) | Some kv \<Rightarrow> kv)
          in if (f < num_faces_owned (mesh pk) \<and> length (face_get_cells (mesh pk) f) = 1)
                \<and> fst pre = OPERATOR_BC_NONE
             then (OPERATOR_BC_NEUMANN, 0) else pre)
      = (case map_of (rev ?A5) f of Some kv \<Rightarrow> kv | None \<Rightarrow>
         (case map_of (rev ?A4) f of Some kv \<Rightarrow> kv | None \<Rightarrow>
         (case map_of (rev ?A3) f of Some kv \<Rightarrow> kv | None \<Rightarrow>
         (case map_of (rev ?A2) f of Some kv \<Rightarrow> kv | None \<Rightarrow>
         (case map_of (rev ?A1) f of Some kv \<Rightarrow> kv | None \<Rightarrow>
            if f < num_faces_owned (mesh pk) \<and> length (face_get_cells (mesh pk) f) = 1
            then (OPERATOR_BC_NEUMANN, 0) else (OPERATOR_BC_NONE, 0))))))"
    unfolding A map_of_rev_append5
  proof (rule default_after_lookup)
    show "fst kv \<noteq> OPERATOR_BC_NONE" if "map_of (rev ?A1) f = Some kv" for kv
      using that unfolding o1 by auto
    show "fst kv \<noteq> OPERATOR_BC_NONE" if "map_of (rev ?A2) f = Some kv" for kv
      using that unfolding o2 by auto
    show "fst kv \<noteq> OPERATOR_BC_NONE" if "map_of (rev ?A3) f = Some kv" for kv
      using that unfolding o3 by (auto simp add: seepage_pair_kind)
    show "fst kv \<noteq> OPERATOR_BC_NONE" if "map_of (rev ?A4) f = Some kv" for kv
      using that unfolding o4 by auto
    show "fst kv \<noteq> OPERATOR_BC_NONE" if "map_of (rev ?A5) f = Some kv" for kv
      using that unfolding o5 by auto
  qed
  also have "\<dots> = bc_precedence kr pk f"
    unfolding o1 o2 o3 o4 o5 bc_precedence_def Let_def case_map_option
    by (rule refl)
  finally show ?thesis .
qed

section \<open>Richards flow: the result of one pass\<close>

lemma UpdateBoundaryConditions_result:
  assumes "UpdateBoundaryConditions kr pk = Inr pk'" and "well_formed pk"
  shows "length (bc_markers pk') = length (bc_markers pk)"
    and "length (bc_values pk') = length (bc_markers pk)"
    and "f < length (bc_markers pk) \<Longrightarrow>
           (bc_markers pk' ! f, bc_values pk' ! f) = bc_precedence kr pk f"
proof -
  let ?n = "length (bc_markers pk)"
  let ?b0 = "(replicate ?n OPERATOR_BC_NONE, replicate (length (bc_values pk)) (0::real))"
  let ?B = "assign_bcs (pass_assignments kr pk) ?b0"
  have len: "length (bc_markers pk) = length (bc_values pk)"
    using assms(2) by (simp add: well_formed_def)
  obtain ms vs where B: "?B = (ms, vs)"
    by (cases ?B)
  have lB: "length ms = ?n" "length vs = ?n"
    using assign_bcs_length [of "pass_assignments kr pk" "fst ?b0" "snd ?b0"] B len by simp_all
  have pk': "bc_markers pk' = fst (bc_default (mesh pk) (ms, vs))"
    "bc_values pk' = snd (bc_default (mesh pk) (ms, vs))"
    using UpdateBoundaryConditions_Inr [OF assms(1) len] B by simp_all
  have D: "bc_default (mesh pk) (ms, vs) =
     (map (\<lambda>j. if j < num_faces_owned (mesh pk) \<and> ms ! j = OPERATOR_BC_NONE
                   \<and> length (face_get_cells (mesh pk) j) = 1
                then OPERATOR_BC_NEUMANN else ms ! j) [0..<length ms],
      map (\<lambda>j. if j < num_faces_owned (mesh pk) \<and> ms ! j = OPERATOR_BC_NONE
                   \<and> length (face_get_cells (mesh pk) j) = 1
                then 0 else vs ! j) [0..<length vs])"
    using lB by (intro bc_default_eq) simp
  show "length (bc_markers pk') = ?n" and "length (bc_values pk') = ?n"
    using pk' D lB by simp_all
  show "(bc_markers pk' ! f, bc_values pk' ! f) = bc_precedence kr pk f" if f: "f < ?n"
  proof -
    have "(fst ?B ! f, snd ?B ! f) =
        (case map_of (rev (pass_assignments kr pk)) f of
           None \<Rightarrow> (replicate ?n OPERATOR_BC_NONE ! f, replicate (length (bc_values pk)) 0 ! f)
         | Some kv \<Rightarrow> kv)"
      using f len by (intro assign_bcs_nth) simp_all
    moreover have "replicate ?n OPERATOR_BC_NONE ! f = OPERATOR_BC_NONE"
      "replicate (length (bc_values pk)) (0::real) ! f = 0"
      using f len by simp_all
    ultimately have pre: "(ms ! f, vs ! f) =
        (case map_of (rev (pass_assignments kr pk)) f of
           None \<Rightarrow> (OPERATOR_BC_NONE, 0) | Some kv \<Rightarrow> kv)"
      using B by (simp split: option.split)
    have "(bc_markers pk' ! f, bc_values pk' ! f) =
        (if (f < num_faces_owned (mesh pk) \<and> length (face_get_cells (mesh pk) f) = 1)
            \<and> fst (ms ! f, vs ! f) = OPERATOR_BC_NONE
         then (OPERATOR_BC_NEUMANN, 0) else (ms ! f, vs ! f))"
      using pk' D lB f by auto
    also have "\<dots> = bc_precedence kr pk f"
      unfolding pre using pass_lookup [OF assms(2), of kr f] by (simp add: Let_def)
    finally show ?thesis .
  qed
qed

lemma UpdateBoundaryConditions_returns:
  assumes "bc_seepage pk = [] \<or> cv_face (pressure (S_next pk)) \<noteq> None
           \<or> cv_boundary_face (pressure (S_next pk)) \<noteq> None"
  shows "\<exists>pk'. UpdateBoundaryConditions kr pk = Inr pk'"
proof -
  have "\<exists>b'. bc_seepage_loop (mesh pk) (pressure (S_next pk)) (bc_seepage pk) b = Inr b'" for b
  proof (cases "bc_seepage pk = []")
    case True
    then show ?thesis by simp
  next
    case False
    with assms have "cv_face (pressure (S_next pk)) \<noteq> None
        \<or> cv_boundary_face (pressure (S_next pk)) \<noteq> None"
      by simp
    from bc_seepage_loop_assign [OF this] show ?thesis by simp
  qed
  then obtain b' where "bc_seepage_loop (mesh pk) (pressure (S_next pk)) (bc_seepage pk)
      (if \<not> infiltrate_only_if_unfrozen pk
       then bc_neumann kr (numerical_rel_perm (S_next pk)) (bc_flux pk)
              (bc_dirichlet (bc_pressure pk) (bc_initialize (bc_markers pk, bc_values pk)))
       else bc_neumann_unfrozen kr (numerical_rel_perm (S_next pk)) (temperature (S_next pk))
              (bc_flux pk)
              (bc_dirichlet (bc_pressure pk) (bc_initialize (bc_markers pk, bc_values pk))))
      = Inr b'"
    by blast
  then show ?thesis
    by (simp add: UpdateBoundaryConditions_def Let_def)
qed

lemma UpdateBoundaryConditions_raises:
  assumes "UpdateBoundaryConditions kr pk = Inl e"
  shows "bc_seepage pk \<noteq> [] \<and> cv_face (pressure (S_next pk)) = None
         \<and> cv_boundary_face (pressure (S_next pk)) = None"
proof (rule ccontr)
  assume "\<not> ?thesis"
  then have "bc_seepage pk = [] \<or> cv_face (pressure (S_next pk)) \<noteq> None
      \<or> cv_boundary_face (pressure (S_next pk)) \<noteq> None"
    by auto
  from UpdateBoundaryConditions_returns [OF this, of kr] assms show False
    by simp
qed

lemma bc_precedence_uncoupled:
  assumes "\<not> surface_coupled_face pk f"
  shows "bc_precedence kr pk f =
     (case map_of (bc_seepage pk) f of
        Some v \<Rightarrow> seepage_pair (boundary_pressure_at (mesh pk) (pressure (S_next pk)) f) v
      | None \<Rightarrow>
     (case map_of (bc_flux pk) f of
        Some q \<Rightarrow>
          (OPERATOR_BC_NEUMANN,
           if infiltrate_only_if_unfrozen pk \<and> \<not> temperature (S_next pk) ! f > 27315 / 100 then 0
           else flux_value kr (numerical_rel_perm (S_next pk)) f q)
      | None \<Rightarrow>
     (case map_of (bc_pressure pk) f of
        Some v \<Rightarrow> (OPERATOR_BC_DIRICHLET, v)
      | None \<Rightarrow>
          if f < num_faces_owned (mesh pk) \<and> length (face_get_cells (mesh pk) f) = 1
          then (OPERATOR_BC_NEUMANN, 0)
          else (OPERATOR_BC_NONE, 0))))"
proof -
  have "(if coupled_to_surface_via_flux pk
         then find (\<lambda>c. surface_entity_get_parent (S_next pk) c = f)
                [0..<length (surface_subsurface_flux (S_next pk))] else None) = None"
    and "(if coupled_to_surface_via_head pk
         then find (\<lambda>c. surface_entity_get_parent (S_next pk) c = f)
                [0..<length (surface_pressure (S_next pk))] else None) = None"
    using assms by (auto simp add: surface_coupled_face_def)
  then show ?thesis
    by (simp add: bc_precedence_def Let_def)
qed

lemmas scenario_defs = scenario_pk_def scenario_state_def scenario_mesh_def

lemmas pass_defs = UpdateBoundaryConditions_def bc_initialize_def bc_dirichlet_def bc_neumann_def
  bc_neumann_unfrozen_def bc_surface_head_def bc_surface_flux_def bc_default_def
  BoundaryValue_def Let_def

lemma well_formed_scenario: "well_formed scenario_pk"
  by (simp add: well_formed_def scenario_defs)

text \<open>
  C2, as the code has it. One pass over well-formed data either raises, which happens
  only when there is a seepage face and the pressure has neither a face nor a
  boundary-face component, or leaves the two arrays at their length, one marker and one
  value per face, with the pair of every face given by the precedence of section 4.3:
  coupled-domain condition over seepage over prescribed flux over prescribed pressure,
  then zero-flux Neumann at an owned face with exactly one adjacent cell, and no
  condition (marker none, value 0) at every other face. In particular a seepage face
  keeps the seepage pair, never the default, and a ghost face without a condition keeps
  the marker none even if the rank sees one adjacent cell.
\<close>

theorem UpdateBoundaryConditions_precedence:
  assumes "well_formed pk"
  shows "case UpdateBoundaryConditions kr pk of
           Inl e \<Rightarrow> bc_seepage pk \<noteq> [] \<and> cv_face (pressure (S_next pk)) = None
                     \<and> cv_boundary_face (pressure (S_next pk)) = None
         | Inr pk' \<Rightarrow>
             length (bc_markers pk') = length (bc_markers pk) \<and>
             length (bc_values pk') = length (bc_markers pk) \<and>
             (\<forall>f<length (bc_markers pk).
                (bc_markers pk' ! f, bc_values pk' ! f) = bc_precedence kr pk f)"
proof (cases "UpdateBoundaryConditions kr pk")
  case (Inl e)
  from UpdateBoundaryConditions_raises [OF this] Inl show ?thesis by simp
next
  case (Inr pk')
  from UpdateBoundaryConditions_result [OF this assms] Inr show ?thesis by simp
qed

theorem UpdateBoundaryConditions_precedence_witness:
  "well_formed scenario_pk \<and>
   UpdateBoundaryConditions True scenario_pk =
     Inr (scenario_pk\<lparr>bc_markers := [OPERATOR_BC_DIRICHLET, OPERATOR_BC_NEUMANN,
                                      OPERATOR_BC_DIRICHLET, OPERATOR_BC_NEUMANN,
                                      OPERATOR_BC_NONE, OPERATOR_BC_NONE],
                       bc_values := [100, 6, 0, 0, 0, 0]\<rparr>) \<and>
   bc_precedence True scenario_pk 2 = (OPERATOR_BC_DIRICHLET, 0) \<and>
   bc_precedence True scenario_pk 3 = (OPERATOR_BC_NEUMANN, 0)"
proof -
  have U: "UpdateBoundaryConditions True scenario_pk =
     Inr (scenario_pk\<lparr>bc_markers := [OPERATOR_BC_DIRICHLET, OPERATOR_BC_NEUMANN,
                                      OPERATOR_BC_DIRICHLET, OPERATOR_BC_NEUMANN,
                                      OPERATOR_BC_NONE, OPERATOR_BC_NONE],
                       bc_values := [100, 6, 0, 0, 0, 0]\<rparr>)"
    by (simp add: scenario_defs pass_defs upt_conv_Cons)
  have n: "length (bc_markers scenario_pk) = 6"
    by (simp add: scenario_defs)
  from UpdateBoundaryConditions_precedence [OF well_formed_scenario, of True]
  have "\<forall>f<6. ([OPERATOR_BC_DIRICHLET, OPERATOR_BC_NEUMANN, OPERATOR_BC_DIRICHLET,
                 OPERATOR_BC_NEUMANN, OPERATOR_BC_NONE, OPERATOR_BC_NONE] ! f,
               [100, 6, 0, 0, 0, 0 :: real] ! f) = bc_precedence True scenario_pk f"
    unfolding U n by simp
  from this [rule_format, of 2] this [rule_format, of 3]
  have "bc_precedence True scenario_pk 2 = (OPERATOR_BC_DIRICHLET, 0)"
    and "bc_precedence True scenario_pk 3 = (OPERATOR_BC_NEUMANN, 0)"
    by simp_all
  with U well_formed_scenario show ?thesis by simp
qed

text \<open>
  C2, as the spec states it, fails at a ghost face. In the scenario the pass leaves
  face 5 unmarked although it has exactly one adjacent cell and no boundary function
  and no coupling gives it a condition: the default loop stops at the owned faces.
\<close>

theorem default_ghost_face_counterexample:
  "UpdateBoundaryConditions True scenario_pk =
     Inr (scenario_pk\<lparr>bc_markers := [OPERATOR_BC_DIRICHLET, OPERATOR_BC_NEUMANN,
                                      OPERATOR_BC_DIRICHLET, OPERATOR_BC_NEUMANN,
                                      OPERATOR_BC_NONE, OPERATOR_BC_NONE],
                       bc_values := [100, 6, 0, 0, 0, 0]\<rparr>) \<and>
   length (face_get_cells (mesh scenario_pk) 5) = 1 \<and>
   map_of (bc_pressure scenario_pk) 5 = None \<and>
   map_of (bc_flux scenario_pk) 5 = None \<and>
   map_of (bc_seepage scenario_pk) 5 = None \<and>
   \<not> surface_coupled_face scenario_pk 5"
  by (simp add: scenario_defs pass_defs upt_conv_Cons surface_coupled_face_def)

text \<open>
  C1. Let \<open>f\<close> be a face that the seepage boundary function lists with threshold \<open>v\<close>,
  and \<open>p\<close> the entry of the pressure vector of the state that belongs to \<open>f\<close>: the
  entry \<open>f\<close> of the face component if the vector has one, else the entry of the
  boundary-face component at the exterior index of \<open>f\<close>. Then the seepage loop of the
  composer returns and leaves the complementarity pair at \<open>f\<close>: Neumann with value 0 if
  \<open>p < v\<close>, Dirichlet with value \<open>v\<close> otherwise. The whole pass returns as well, and
  that pair is the one it emits for the face unless a surface coupling claims the face
  (precedence, C2).
\<close>

theorem seepage_face_complementarity:
  assumes "well_formed pk"
    and "(f, v) \<in> set (bc_seepage pk)"
    and "f < length (bc_markers pk)"
    and "case cv_face (pressure (S_next pk)) of
           Some pres \<Rightarrow> f < length pres \<and> p = pres ! f
         | None \<Rightarrow>
             (case cv_boundary_face (pressure (S_next pk)) of
                Some pres \<Rightarrow>
                  0 \<le> exterior_face_map_LID (mesh pk) (face_map_GID (mesh pk) f) \<and>
                  nat (exterior_face_map_LID (mesh pk) (face_map_GID (mesh pk) f)) < length pres \<and>
                  p = pres ! nat (exterior_face_map_LID (mesh pk) (face_map_GID (mesh pk) f))
              | None \<Rightarrow> False)"
  shows "(\<forall>ms vs. f < length ms \<and> f < length vs \<longrightarrow>
            (\<exists>ms' vs'. bc_seepage_loop (mesh pk) (pressure (S_next pk)) (bc_seepage pk) (ms, vs)
                          = Inr (ms', vs') \<and>
               (ms' ! f, vs' ! f) =
                 (if p < v then (OPERATOR_BC_NEUMANN, 0) else (OPERATOR_BC_DIRICHLET, v))))
       \<and> (\<exists>pk'. UpdateBoundaryConditions kr pk = Inr pk' \<and>
            (\<not> surface_coupled_face pk f \<longrightarrow>
               (bc_markers pk' ! f, bc_values pk' ! f) =
                 (if p < v then (OPERATOR_BC_NEUMANN, 0) else (OPERATOR_BC_DIRICHLET, v))))"
proof -
  let ?m = "mesh pk" and ?pres = "pressure (S_next pk)"
  let ?A = "map (\<lambda>(f, v). (f, seepage_pair (boundary_pressure_at ?m ?pres f) v)) (bc_seepage pk)"
  have d: "distinct (map fst (bc_seepage pk))"
    using assms(1) by (simp add: well_formed_def)
  then have look: "map_of (bc_seepage pk) f = Some v"
    using assms(2) by simp
  have read: "BoundaryValue ?m ?pres f = Inr p"
    using assms(4) by (simp add: BoundaryValue_def Let_def split: option.splits)
  have comp: "cv_face ?pres \<noteq> None \<or> cv_boundary_face ?pres \<noteq> None"
    using read BoundaryValue_Inl_iff [of ?m ?pres f] by auto
  have bp: "boundary_pressure_at ?m ?pres f = p"
    using read by (simp add: boundary_pressure_at_def)
  have pair: "seepage_pair p v =
      (if p < v then (OPERATOR_BC_NEUMANN, 0) else (OPERATOR_BC_DIRICHLET, v))"
    by (simp add: seepage_pair_def)
  have stage: "\<exists>ms' vs'. bc_seepage_loop ?m ?pres (bc_seepage pk) (ms, vs) = Inr (ms', vs') \<and>
      (ms' ! f, vs' ! f) =
        (if p < v then (OPERATOR_BC_NEUMANN, 0) else (OPERATOR_BC_DIRICHLET, v))"
    if f: "f < length ms" "f < length vs" for ms vs
  proof -
    obtain b' where b': "bc_seepage_loop ?m ?pres (bc_seepage pk) (ms, vs) = Inr b'"
      using bc_seepage_loop_assign [OF comp] by simp
    then have "b' = assign_bcs ?A (ms, vs)"
      by (rule bc_seepage_loop_Inr)
    moreover have "(fst (assign_bcs ?A (ms, vs)) ! f, snd (assign_bcs ?A (ms, vs)) ! f) =
        (case map_of (rev ?A) f of None \<Rightarrow> (ms ! f, vs ! f) | Some kv \<Rightarrow> kv)"
      using f by (rule assign_bcs_nth)
    moreover have "map_of (rev ?A) f = Some (seepage_pair p v)"
      using map_of_rev_entry [OF d, where i = f
          and g = "\<lambda>f v. seepage_pair (boundary_pressure_at ?m ?pres f) v"] look bp
      by simp
    ultimately have "(fst b' ! f, snd b' ! f) = seepage_pair p v"
      by simp
    with b' pair show ?thesis
      by (cases b') auto
  qed
  obtain pk' where pk': "UpdateBoundaryConditions kr pk = Inr pk'"
    using UpdateBoundaryConditions_returns [of pk kr] comp by blast
  have "(bc_markers pk' ! f, bc_values pk' ! f) = seepage_pair p v"
    if "\<not> surface_coupled_face pk f"
    using UpdateBoundaryConditions_result(3) [OF pk' assms(1,3)]
      bc_precedence_uncoupled [OF that, of kr] look bp by simp
  with pk' pair stage show ?thesis
    by auto
qed

text \<open>
  The scenario of the specification, threshold 0 at face 2: with the pressure 5 in the
  face component the pass emits Dirichlet at 0; with a pressure vector that has only a
  boundary-face component, and -5 at the exterior index of the face, it emits Neumann
  with value 0.
\<close>

theorem seepage_face_complementarity_witness:
  "cv_face (pressure (S_next scenario_pk)) = Some [100, 0, 5, 0, 0, 0] \<and>
   UpdateBoundaryConditions True scenario_pk =
     Inr (scenario_pk\<lparr>bc_markers := [OPERATOR_BC_DIRICHLET, OPERATOR_BC_NEUMANN,
                                      OPERATOR_BC_DIRICHLET, OPERATOR_BC_NEUMANN,
                                      OPERATOR_BC_NONE, OPERATOR_BC_NONE],
                       bc_values := [100, 6, 0, 0, 0, 0]\<rparr>) \<and>
   (\<exists>pk'. UpdateBoundaryConditions True
            (scenario_pk\<lparr>S_next := scenario_state\<lparr>pressure :=
               \<lparr>cv_cell = [101325, 101325], cv_face = None,
                cv_boundary_face = Some [100, 0, - 5, 0, 0, 0]\<rparr>\<rparr>\<rparr>) = Inr pk' \<and>
          (bc_markers pk' ! 2, bc_values pk' ! 2) = (OPERATOR_BC_NEUMANN, 0))"
proof -
  let ?pk = "scenario_pk\<lparr>S_next := scenario_state\<lparr>pressure :=
               \<lparr>cv_cell = [101325, 101325], cv_face = None,
                cv_boundary_face = Some [100, 0, - 5, 0, 0, 0]\<rparr>\<rparr>\<rparr>"
  have a: "(2, 0) \<in> set (bc_seepage scenario_pk)" "2 < length (bc_markers scenario_pk)"
    "case cv_face (pressure (S_next scenario_pk)) of
       Some pres \<Rightarrow> 2 < length pres \<and> 5 = pres ! 2
     | None \<Rightarrow>
         (case cv_boundary_face (pressure (S_next scenario_pk)) of
            Some pres \<Rightarrow>
              0 \<le> exterior_face_map_LID (mesh scenario_pk) (face_map_GID (mesh scenario_pk) 2) \<and>
              nat (exterior_face_map_LID (mesh scenario_pk) (face_map_GID (mesh scenario_pk) 2))
                < length pres \<and>
              5 = pres ! nat (exterior_face_map_LID (mesh scenario_pk)
                               (face_map_GID (mesh scenario_pk) 2))
          | None \<Rightarrow> False)"
    by (simp_all add: scenario_defs)
  have b: "well_formed ?pk" "(2, 0) \<in> set (bc_seepage ?pk)" "2 < length (bc_markers ?pk)"
    "case cv_face (pressure (S_next ?pk)) of
       Some pres \<Rightarrow> 2 < length pres \<and> - 5 = pres ! 2
     | None \<Rightarrow>
         (case cv_boundary_face (pressure (S_next ?pk)) of
            Some pres \<Rightarrow>
              0 \<le> exterior_face_map_LID (mesh ?pk) (face_map_GID (mesh ?pk) 2) \<and>
              nat (exterior_face_map_LID (mesh ?pk) (face_map_GID (mesh ?pk) 2)) < length pres \<and>
              - 5 = pres ! nat (exterior_face_map_LID (mesh ?pk) (face_map_GID (mesh ?pk) 2))
          | None \<Rightarrow> False)"
    by (simp_all add: well_formed_def scenario_defs)
  have nc: "\<not> surface_coupled_face scenario_pk 2" "\<not> surface_coupled_face ?pk 2"
    by (simp_all add: surface_coupled_face_def scenario_defs)
  from seepage_face_complementarity [OF well_formed_scenario a, of True] nc(1)
  obtain pk1 where "UpdateBoundaryConditions True scenario_pk = Inr pk1"
    and "(bc_markers pk1 ! 2, bc_values pk1 ! 2) = (OPERATOR_BC_DIRICHLET, 0)"
    by auto
  moreover have "UpdateBoundaryConditions True scenario_pk =
     Inr (scenario_pk\<lparr>bc_markers := [OPERATOR_BC_DIRICHLET, OPERATOR_BC_NEUMANN,
                                      OPERATOR_BC_DIRICHLET, OPERATOR_BC_NEUMANN,
                                      OPERATOR_BC_NONE, OPERATOR_BC_NONE],
                       bc_values := [100, 6, 0, 0, 0, 0]\<rparr>)"
    by (simp add: scenario_defs pass_defs upt_conv_Cons)
  moreover from seepage_face_complementarity [OF b, of True] nc(2)
  obtain pk2 where "UpdateBoundaryConditions True ?pk = Inr pk2"
    and "(bc_markers pk2 ! 2, bc_values pk2 ! 2) = (OPERATOR_BC_NEUMANN, 0)"
    by auto
  moreover have "cv_face (pressure (S_next scenario_pk)) = Some [100, 0, 5, 0, 0, 0]"
    by (simp add: scenario_defs)
  ultimately show ?thesis
    by blast
qed

text \<open>
  C5. With infiltration limited to unfrozen ground, the flux loop of the composer marks
  every face of the prescribed-flux boundary function Neumann. Its value is 0 unless the
  face temperature is above 273.15; above 273.15 it is the prescribed flux, divided by
  the upwinded relative permeability of the face when the pass runs without relative
  permeability (\<open>kr\<close> false) and that coefficient is positive. This is also what the
  whole pass emits for the face unless the face is a seepage face or a surface coupling
  claims it (precedence, C2).
\<close>

theorem prescribed_flux_unfrozen_gate:
  assumes "well_formed pk"
    and "infiltrate_only_if_unfrozen pk"
    and "(f, q) \<in> set (bc_flux pk)"
    and "f < length (bc_markers pk)"
  shows "(\<forall>ms vs. f < length ms \<and> f < length vs \<longrightarrow>
            (let b' = bc_neumann_unfrozen kr (numerical_rel_perm (S_next pk))
                        (temperature (S_next pk)) (bc_flux pk) (ms, vs)
             in fst b' ! f = OPERATOR_BC_NEUMANN \<and>
                snd b' ! f =
                  (if temperature (S_next pk) ! f > 27315 / 100
                   then (if \<not> kr \<and> numerical_rel_perm (S_next pk) ! f > 0
                         then q / numerical_rel_perm (S_next pk) ! f else q)
                   else 0)))
       \<and> (\<forall>pk'. UpdateBoundaryConditions kr pk = Inr pk' \<and> map_of (bc_seepage pk) f = None
                  \<and> \<not> surface_coupled_face pk f \<longrightarrow>
            bc_markers pk' ! f = OPERATOR_BC_NEUMANN \<and>
            bc_values pk' ! f =
              (if temperature (S_next pk) ! f > 27315 / 100
               then (if \<not> kr \<and> numerical_rel_perm (S_next pk) ! f > 0
                     then q / numerical_rel_perm (S_next pk) ! f else q)
               else 0))"
proof -
  let ?rp = "numerical_rel_perm (S_next pk)" and ?temp = "temperature (S_next pk)"
  let ?val = "if ?temp ! f > 27315 / 100
               then (if \<not> kr \<and> ?rp ! f > 0 then q / ?rp ! f else q) else 0"
  let ?A = "map (\<lambda>(f, v). (f, OPERATOR_BC_NEUMANN,
        if ?temp ! f > 27315 / 100 then flux_value kr ?rp f v else 0)) (bc_flux pk)"
  have d: "distinct (map fst (bc_flux pk))"
    using assms(1) by (simp add: well_formed_def)
  then have look: "map_of (bc_flux pk) f = Some q"
    using assms(3) by simp
  have stage: "fst (bc_neumann_unfrozen kr ?rp ?temp (bc_flux pk) (ms, vs)) ! f = OPERATOR_BC_NEUMANN
      \<and> snd (bc_neumann_unfrozen kr ?rp ?temp (bc_flux pk) (ms, vs)) ! f = ?val"
    if f: "f < length ms" "f < length vs" for ms vs
  proof -
    have "(fst (assign_bcs ?A (ms, vs)) ! f, snd (assign_bcs ?A (ms, vs)) ! f) =
        (case map_of (rev ?A) f of None \<Rightarrow> (ms ! f, vs ! f) | Some kv \<Rightarrow> kv)"
      using f by (rule assign_bcs_nth)
    moreover have "map_of (rev ?A) f = Some (OPERATOR_BC_NEUMANN,
        if ?temp ! f > 27315 / 100 then flux_value kr ?rp f q else 0)"
      using map_of_rev_entry [OF d, where i = f
          and g = "\<lambda>f v. (OPERATOR_BC_NEUMANN,
             if ?temp ! f > 27315 / 100 then flux_value kr ?rp f v else 0)"] look
      by simp
    ultimately show ?thesis
      by (simp add: bc_neumann_unfrozen_assign flux_value_def)
  qed
  have final: "bc_markers pk' ! f = OPERATOR_BC_NEUMANN \<and> bc_values pk' ! f = ?val"
    if "UpdateBoundaryConditions kr pk = Inr pk'" "map_of (bc_seepage pk) f = None"
      "\<not> surface_coupled_face pk f" for pk'
    using UpdateBoundaryConditions_result(3) [OF that(1) assms(1,4)]
      bc_precedence_uncoupled [OF that(3), of kr] look that(2) assms(2)
    by (simp add: flux_value_def)
  show ?thesis
    using stage final by (simp add: Let_def)
qed

theorem prescribed_flux_unfrozen_gate_witness:
  "UpdateBoundaryConditions False (scenario_pk\<lparr>infiltrate_only_if_unfrozen := True\<rparr>) =
     Inr (scenario_pk\<lparr>infiltrate_only_if_unfrozen := True,
                       bc_markers := [OPERATOR_BC_DIRICHLET, OPERATOR_BC_NEUMANN,
                                      OPERATOR_BC_DIRICHLET, OPERATOR_BC_NEUMANN,
                                      OPERATOR_BC_NONE, OPERATOR_BC_NONE],
                       bc_values := [100, 12, 0, 0, 0, 0]\<rparr>)"
proof -
  let ?pk = "scenario_pk\<lparr>infiltrate_only_if_unfrozen := True\<rparr>"
  have U: "UpdateBoundaryConditions False ?pk =
     Inr (scenario_pk\<lparr>infiltrate_only_if_unfrozen := True,
                       bc_markers := [OPERATOR_BC_DIRICHLET, OPERATOR_BC_NEUMANN,
                                      OPERATOR_BC_DIRICHLET, OPERATOR_BC_NEUMANN,
                                      OPERATOR_BC_NONE, OPERATOR_BC_NONE],
                       bc_values := [100, 12, 0, 0, 0, 0]\<rparr>)"
    by (simp add: scenario_defs pass_defs upt_conv_Cons)
  have a: "well_formed ?pk" "infiltrate_only_if_unfrozen ?pk" "(1, 6) \<in> set (bc_flux ?pk)"
    "1 < length (bc_markers ?pk)"
    by (simp_all add: well_formed_def scenario_defs)
  have b: "map_of (bc_seepage ?pk) 1 = None" "\<not> surface_coupled_face ?pk 1"
    by (simp_all add: surface_coupled_face_def scenario_defs)
  from prescribed_flux_unfrozen_gate [OF a, of False] U b
  have "bc_values (projr (UpdateBoundaryConditions False ?pk)) ! 1 = 12"
    by (simp add: scenario_defs)
  with U show ?thesis by simp
qed

section \<open>Richards flow: the frame of applying boundary conditions\<close>

text \<open>
  C10. Applying the boundary conditions to the pressure vector writes the composed
  boundary value into the face entry of every face marked Dirichlet and changes nothing
  else: a face entry whose marker is not Dirichlet (Neumann or none) keeps its value,
  and the cell component and the boundary-face component are the ones of the input.
  The marker and value arrays cover the faces of the vector.
\<close>

theorem ApplyBoundaryConditions_frame:
  assumes "ApplyBoundaryConditions pk pres = Some pres'"
    and "cv_face pres = Some pres_f"
    and "length pres_f \<le> length (bc_markers pk)"
    and "length pres_f \<le> length (bc_values pk)"
  shows "cv_cell pres' = cv_cell pres \<and>
         cv_boundary_face pres' = cv_boundary_face pres \<and>
         (\<exists>pres_f'. cv_face pres' = Some pres_f' \<and> length pres_f' = length pres_f \<and>
            (\<forall>f < length pres_f.
               pres_f' ! f = (if bc_markers pk ! f = OPERATOR_BC_DIRICHLET
                              then bc_values pk ! f else pres_f ! f)))"
  using assms
  by (auto simp add: ApplyBoundaryConditions_def fold_upt_guarded_length fold_upt_guarded_nth)

theorem ApplyBoundaryConditions_frame_witness:
  "ApplyBoundaryConditions scenario_pk
     \<lparr>cv_cell = [1, 2], cv_face = Some [10, 20, 30], cv_boundary_face = None\<rparr>
   = Some \<lparr>cv_cell = [1, 2], cv_face = Some [10, 20, 30], cv_boundary_face = None\<rparr>
   \<and> ApplyBoundaryConditions
       (scenario_pk\<lparr>bc_markers := [OPERATOR_BC_DIRICHLET, OPERATOR_BC_NEUMANN, OPERATOR_BC_NONE],
                     bc_values := [7, 8, 9]\<rparr>)
       \<lparr>cv_cell = [1, 2], cv_face = Some [10, 20, 30], cv_boundary_face = None\<rparr>
   = Some \<lparr>cv_cell = [1, 2], cv_face = Some [7, 20, 30], cv_boundary_face = None\<rparr>"
proof -
  let ?pk = "scenario_pk\<lparr>bc_markers := [OPERATOR_BC_DIRICHLET, OPERATOR_BC_NEUMANN, OPERATOR_BC_NONE],
                     bc_values := [7, 8, 9]\<rparr>"
  let ?p = "\<lparr>cv_cell = [1, 2], cv_face = Some [10, 20, 30], cv_boundary_face = None\<rparr>"
  obtain p' where p': "ApplyBoundaryConditions ?pk ?p = Some p'"
    by (simp add: ApplyBoundaryConditions_def)
  have f: "cv_face ?p = Some [10, 20, 30]" by simp
  have l: "length [10, 20, 30 :: real] \<le> length (bc_markers ?pk)"
    "length [10, 20, 30 :: real] \<le> length (bc_values ?pk)"
    by simp_all
  from ApplyBoundaryConditions_frame [OF p' f l]
  obtain pf where pf: "cv_cell p' = [1, 2]" "cv_boundary_face p' = None" "cv_face p' = Some pf"
    "length pf = 3" "\<forall>f<3. pf ! f = (if bc_markers ?pk ! f = OPERATOR_BC_DIRICHLET
                              then bc_values ?pk ! f else [10, 20, 30] ! f)"
    by auto
  from pf(5) have "pf ! 0 = 7" "pf ! 1 = 20" "pf ! 2 = 30"
    by simp_all
  with pf(4) have "pf = [7, 20, 30]"
    by (auto simp add: list_eq_iff_nth_eq numeral_3_eq_3 less_Suc_eq numeral_2_eq_2)
  with pf(1,2,3) have "p' = \<lparr>cv_cell = [1, 2], cv_face = Some [7, 20, 30], cv_boundary_face = None\<rparr>"
    by simp
  moreover have "ApplyBoundaryConditions scenario_pk ?p = Some ?p"
    by (simp add: ApplyBoundaryConditions_def scenario_pk_def)
  ultimately show ?thesis
    using p' by simp
qed

section \<open>Richards flow: setup and the coupling modes\<close>

lemma bind_result_Inr:
  "bind_result r f = Inr y \<longleftrightarrow> (\<exists>x. r = Inr x \<and> f x = Inr y)"
  by (cases r) (simp_all add: bind_result_def)

lemma ASSERT_Inr: "ASSERT b = Inr u \<longleftrightarrow> b"
  by (simp add: ASSERT_def)

lemma SetupRichardsFlow_flags:
  assumes "SetupRichardsFlow plist bc_factory pk = Inr pk'"
  shows "get_bool plist ''coupled to surface via flux'' False = Inr (coupled_to_surface_via_flux pk')"
    and "get_bool plist ''coupled to surface via head'' False = Inr (coupled_to_surface_via_head pk')"
    and "\<not> (coupled_to_surface_via_flux pk' \<and> coupled_to_surface_via_head pk')"
    and "length (bc_markers pk') = num_faces_used (mesh pk)"
    and "length (bc_values pk') = num_faces_used (mesh pk)"
  using assms
  by (auto simp add: SetupRichardsFlow_def bind_result_Inr ASSERT_Inr resize_def
      split: prod.splits)

lemmas plist_defs = get_bool_def get_double_def get_string_def plist_sublist_def isSublist_def
  bind_result_def parse_update_flux_def select_upwinding_def ASSERT_def resize_def

text \<open>
  C9. Setup reads the two coupling flags from the parameter list and asserts that they
  are not both set. A configuration that passes setup therefore carries the flags as
  configured, with at most one of them true, so that at most one of the two coupling
  loops of the composer (Dirichlet from the surface pressure, Neumann from the surface
  flux) runs; and a configuration in which both flags are true never passes setup: it
  ends in an error.
\<close>

theorem SetupRichardsFlow_coupling_exclusive:
  "(\<forall>pk'. SetupRichardsFlow plist bc_factory pk = Inr pk' \<longrightarrow>
      get_bool plist ''coupled to surface via flux'' False
        = Inr (coupled_to_surface_via_flux pk') \<and>
      get_bool plist ''coupled to surface via head'' False
        = Inr (coupled_to_surface_via_head pk') \<and>
      \<not> (coupled_to_surface_via_flux pk' \<and> coupled_to_surface_via_head pk'))
   \<and> (get_bool plist ''coupled to surface via flux'' False = Inr True \<and>
      get_bool plist ''coupled to surface via head'' False = Inr True \<longrightarrow>
      (\<exists>e. SetupRichardsFlow plist bc_factory pk = Inl e))"
proof (intro conjI allI impI)
  fix pk'
  assume s: "SetupRichardsFlow plist bc_factory pk = Inr pk'"
  from SetupRichardsFlow_flags(1) [OF s]
  show "get_bool plist ''coupled to surface via flux'' False
        = Inr (coupled_to_surface_via_flux pk')" .
  from SetupRichardsFlow_flags(2) [OF s]
  show "get_bool plist ''coupled to surface via head'' False
        = Inr (coupled_to_surface_via_head pk')" .
  from SetupRichardsFlow_flags(3) [OF s]
  show "\<not> (coupled_to_surface_via_flux pk' \<and> coupled_to_surface_via_head pk')" .
next
  assume both: "get_bool plist ''coupled to surface via flux'' False = Inr True \<and>
      get_bool plist ''coupled to surface via head'' False = Inr True"
  show "\<exists>e. SetupRichardsFlow plist bc_factory pk = Inl e"
  proof (cases "SetupRichardsFlow plist bc_factory pk")
    case (Inl e)
    then show ?thesis by blast
  next
    case (Inr pk')
    from SetupRichardsFlow_flags(1,2,3) [OF this] both show ?thesis
      by simp
  qed
qed

theorem SetupRichardsFlow_coupling_exclusive_witness:
  "SetupRichardsFlow plist_both scenario_factory scenario_pk = Inl AssertionFailed \<and>
   (\<exists>pk'. SetupRichardsFlow plist_flux scenario_factory scenario_pk = Inr pk' \<and>
      coupled_to_surface_via_flux pk' \<and> \<not> coupled_to_surface_via_head pk')"
proof -
  have b: "get_bool plist_both ''coupled to surface via flux'' False = Inr True \<and>
      get_bool plist_both ''coupled to surface via head'' False = Inr True"
    by (simp add: plist_both_def get_bool_def)
  with SetupRichardsFlow_coupling_exclusive [of plist_both scenario_factory scenario_pk]
  obtain e where e: "SetupRichardsFlow plist_both scenario_factory scenario_pk = Inl e"
    by blast
  have "SetupRichardsFlow plist_both scenario_factory scenario_pk = Inl AssertionFailed"
    by (simp add: SetupRichardsFlow_def plist_both_def plist_defs)
  moreover obtain pk' where pk': "SetupRichardsFlow plist_flux scenario_factory scenario_pk = Inr pk'"
    by (simp add: SetupRichardsFlow_def plist_flux_def plist_defs)
  moreover have "get_bool plist_flux ''coupled to surface via flux'' False = Inr True"
    "get_bool plist_flux ''coupled to surface via head'' False = Inr False"
    by (simp_all add: plist_flux_def get_bool_def)
  with SetupRichardsFlow_coupling_exclusive [of plist_flux scenario_factory scenario_pk] pk'
  have "coupled_to_surface_via_flux pk' \<and> \<not> coupled_to_surface_via_head pk'"
    by simp
  ultimately show ?thesis
    by blast
qed

section \<open>Energy: the preconditioner update\<close>

lemma update_precon_diagonal_length:
  "length (update_precon_diagonal pk de_dT pres patm h Acc) = length Acc"
proof -
  have "length (fold (\<lambda>c A. A[c := A ! c + k c]) [0..<n] Acc) = length Acc" for k :: "nat \<Rightarrow> real" and n
    using fold_upt_pointwise_length [where g = "\<lambda>c x. x + k c"] by simp
  then show ?thesis
    by (simp add: update_precon_diagonal_def Let_def)
qed

lemma update_precon_diagonal_nth:
  assumes "length de_dT \<le> length Acc" and "c < length de_dT"
  shows "update_precon_diagonal pk de_dT pres patm h Acc ! c =
           Acc ! c +
           (if (coupled_to_subsurface_via_temp pk \<or> coupled_to_subsurface_via_flux pk)
               \<and> pres ! c < patm
            then 0 else de_dT ! c / h)"
proof -
  have c: "c < length Acc"
    using assms by simp
  show ?thesis
  proof (cases "coupled_to_subsurface_via_temp pk \<or> coupled_to_subsurface_via_flux pk")
    case True
    then have "update_precon_diagonal pk de_dT pres patm h Acc =
        fold (\<lambda>c A. A[c := A ! c + (if pres ! c \<ge> patm then de_dT ! c / h else 0)])
          [0..<length de_dT] Acc"
      by (simp add: update_precon_diagonal_def)
    with c assms(2) True show ?thesis
      by (simp add: fold_upt_add_nth not_le)
  next
    case False
    then have "update_precon_diagonal pk de_dT pres patm h Acc =
        fold (\<lambda>c A. A[c := A ! c + de_dT ! c / h]) [0..<length de_dT] Acc"
      by (simp add: update_precon_diagonal_def)
    with c assms(2) False show ?thesis
      by (simp add: fold_upt_add_nth)
  qed
qed

lemma AddSourcesToPrecon_nth:
  assumes "c < length Acc"
  shows "AddSourcesToPrecon pk S h Acc ! c =
           Acc ! c - (if is_source_term pk \<and> source_IsDependency pk \<and> c < length (S_dsource_dT S)
                      then S_dsource_dT S ! c else 0)"
  using assms fold_upt_pointwise_nth [where g = "\<lambda>c x. x - S_dsource_dT S ! c" and xs = Acc]
  by (simp add: AddSourcesToPrecon_def)

lemma update_precon_acc_vals:
  assumes "update_precon pk S t h A = Inr A'"
  shows "preconditioner_acc_vals A' = AddSourcesToPrecon pk S h (preconditioner_acc_vals A)"
  using assms
  by (auto simp add: update_precon_def Let_def call_def update_precon_assemble_def
      split: sum.splits)

text \<open>
  C4. In a preconditioner update with a nonzero step \<open>h\<close>, every cell's entry of the
  diagonal \<^verbatim>\<open>Acc_cells\<close> of the operator receives exactly the accumulation derivative
  \<open>de_dT / h\<close>, except that it receives nothing when the kernel is coupled to the
  subsurface (through the temperature or through the flux) and the surface pressure of
  the cell is strictly below the atmospheric pressure. The diagonal has an entry for
  every cell of \<open>de_dT\<close>.
\<close>

theorem update_precon_diagonal_contribution:
  assumes "update_precon pk S t h A = Inr A'"
    and "h \<noteq> 0"
    and "length (S_de_dT S) \<le> length (Acc_cells A)"
    and "c < length (S_de_dT S)"
  shows "Acc_cells A' ! c =
           Acc_cells A ! c +
           (if (coupled_to_subsurface_via_temp pk \<or> coupled_to_subsurface_via_flux pk)
               \<and> S_surface_pressure S ! c < S_atmospheric_pressure S
            then 0 else S_de_dT S ! c / h)"
proof -
  have "Acc_cells A' = update_precon_diagonal pk (S_de_dT S) (S_surface_pressure S)
      (S_atmospheric_pressure S) h (Acc_cells A)"
    using assms(1)
    by (auto simp add: update_precon_def Let_def call_def update_precon_assemble_def
        split: sum.splits)
  then show ?thesis
    using update_precon_diagonal_nth [OF assms(3,4)] by simp
qed

theorem update_precon_diagonal_contribution_witness:
  "update_precon
     \<lparr>coupled_to_subsurface_via_temp = False, coupled_to_subsurface_via_flux = True,
      assemble_preconditioner = False, is_source_term = True, source_IsDependency = True\<rparr>
     \<lparr>S_time = 10, S_de_dT = [6, 8], S_surface_pressure = [100, 101325],
      S_atmospheric_pressure = 101325, S_dsource_dT = [3, 3]\<rparr>
     10 2 \<lparr>Acc_cells = [1, 1], calls = [], preconditioner_acc_vals = [0, 0]\<rparr>
   = Inr \<lparr>Acc_cells = [1, 5],
          calls = [CreateMFDstiffnessMatrices, CreateMFDrhsVectors, MFD_ApplyBoundaryConditions,
                   AssembleGlobalMatrices],
          preconditioner_acc_vals = [- 3, - 3]\<rparr>"
proof -
  let ?pk = "\<lparr>coupled_to_subsurface_via_temp = False, coupled_to_subsurface_via_flux = True,
      assemble_preconditioner = False, is_source_term = True, source_IsDependency = True\<rparr>"
  let ?S = "\<lparr>S_time = 10, S_de_dT = [6, 8], S_surface_pressure = [100, 101325],
      S_atmospheric_pressure = 101325, S_dsource_dT = [3, 3]\<rparr>"
  let ?A = "\<lparr>Acc_cells = [1, 1], calls = [], preconditioner_acc_vals = [0, 0]\<rparr>"
  obtain A' where A': "update_precon ?pk ?S 10 2 ?A = Inr A'"
    by (simp add: update_precon_def ASSERT_def Let_def)
  have "Acc_cells A' ! 0 = 1" and "Acc_cells A' ! 1 = 5"
    using update_precon_diagonal_contribution [OF A', of 0]
      update_precon_diagonal_contribution [OF A', of 1]
    by simp_all
  moreover have "length (Acc_cells A') = 2"
    using A'
    by (auto simp add: update_precon_def ASSERT_def Let_def update_precon_assemble_def call_def
        update_precon_diagonal_length)
  ultimately have "Acc_cells A' = [1, 5]"
    by (cases "Acc_cells A'"; cases "tl (Acc_cells A')") auto
  moreover have "calls A' = [CreateMFDstiffnessMatrices, CreateMFDrhsVectors,
      MFD_ApplyBoundaryConditions, AssembleGlobalMatrices]"
    using A'
    by (auto simp add: update_precon_def ASSERT_def Let_def update_precon_assemble_def call_def)
  moreover have "preconditioner_acc_vals A' = [- 3, - 3]"
    using update_precon_acc_vals [OF A'] by (simp add: AddSourcesToPrecon_def upt_conv_Cons)
  ultimately have "A' = \<lparr>Acc_cells = [1, 5],
          calls = [CreateMFDstiffnessMatrices, CreateMFDrhsVectors, MFD_ApplyBoundaryConditions,
                   AssembleGlobalMatrices],
          preconditioner_acc_vals = [- 3, - 3]\<rparr>"
    by simp
  with A' show ?thesis by simp
qed

text \<open>
  C3, as the code has it. An update of the preconditioner that passes its assertion
  calls, in this order: the stiffness matrices, the right-hand sides, the boundary
  conditions, and then
  \<^item> under coupling to the subsurface (temperature or flux): the global assembly alone;
  \<^item> without coupling and with the option \<^verbatim>\<open>assemble_preconditioner_\<close>: the global
    assembly, the Schur complement and the update of the preconditioner;
  \<^item> without coupling and without the option: nothing more.
\<close>

theorem update_precon_calls:
  assumes "update_precon pk S t h A = Inr A'"
  shows "calls A' = calls A
           @ [CreateMFDstiffnessMatrices, CreateMFDrhsVectors, MFD_ApplyBoundaryConditions]
           @ (if coupled_to_subsurface_via_temp pk \<or> coupled_to_subsurface_via_flux pk
              then [AssembleGlobalMatrices]
              else if assemble_preconditioner pk
              then [AssembleGlobalMatrices, ComputeSchurComplement, UpdatePreconditioner]
              else [])"
  using assms
  by (auto simp add: update_precon_def update_precon_assemble_def call_def Let_def ASSERT_def
      split: if_splits)

theorem update_precon_calls_witness:
  "update_precon
     \<lparr>coupled_to_subsurface_via_temp = False, coupled_to_subsurface_via_flux = False,
      assemble_preconditioner = True, is_source_term = False, source_IsDependency = False\<rparr>
     \<lparr>S_time = 10, S_de_dT = [4], S_surface_pressure = [], S_atmospheric_pressure = 101325,
      S_dsource_dT = []\<rparr>
     10 2 \<lparr>Acc_cells = [0], calls = [], preconditioner_acc_vals = []\<rparr>
   = Inr \<lparr>Acc_cells = [2],
          calls = [CreateMFDstiffnessMatrices, CreateMFDrhsVectors, MFD_ApplyBoundaryConditions,
                   AssembleGlobalMatrices, ComputeSchurComplement, UpdatePreconditioner],
          preconditioner_acc_vals = []\<rparr>"
proof -
  let ?pk = "\<lparr>coupled_to_subsurface_via_temp = False, coupled_to_subsurface_via_flux = False,
      assemble_preconditioner = True, is_source_term = False, source_IsDependency = False\<rparr>"
  let ?S = "\<lparr>S_time = 10, S_de_dT = [4], S_surface_pressure = [], S_atmospheric_pressure = 101325,
      S_dsource_dT = []\<rparr>"
  let ?A = "\<lparr>Acc_cells = [0], calls = [], preconditioner_acc_vals = []\<rparr>"
  obtain A' where A': "update_precon ?pk ?S 10 2 ?A = Inr A'"
    by (simp add: update_precon_def ASSERT_def Let_def)
  have c: "calls A' = [CreateMFDstiffnessMatrices, CreateMFDrhsVectors,
      MFD_ApplyBoundaryConditions, AssembleGlobalMatrices, ComputeSchurComplement,
      UpdatePreconditioner]"
    using update_precon_calls [OF A'] by simp
  note c
  moreover have "Acc_cells A' = [2]"
    using A'
    by (auto simp add: update_precon_def ASSERT_def Let_def update_precon_assemble_def call_def
        update_precon_diagonal_def AddSourcesToPrecon_def)
  moreover have "preconditioner_acc_vals A' = []"
    using update_precon_acc_vals [OF A'] by (simp add: AddSourcesToPrecon_def)
  ultimately have "A' = \<lparr>Acc_cells = [2],
          calls = [CreateMFDstiffnessMatrices, CreateMFDrhsVectors, MFD_ApplyBoundaryConditions,
                   AssembleGlobalMatrices, ComputeSchurComplement, UpdatePreconditioner],
          preconditioner_acc_vals = []\<rparr>"
    by simp
  with A' show ?thesis by simp
qed

text \<open>
  C3, as the spec states it, fails at both ends. A kernel coupled through the flux
  assembles the global matrices and forms no Schur complement; a kernel without
  coupling whose option \<^verbatim>\<open>assemble_preconditioner_\<close> is set assembles globally and forms
  the Schur complement.
\<close>

theorem update_precon_schur_counterexample:
  "update_precon
     \<lparr>coupled_to_subsurface_via_temp = False, coupled_to_subsurface_via_flux = True,
      assemble_preconditioner = True, is_source_term = False, source_IsDependency = False\<rparr>
     \<lparr>S_time = 10, S_de_dT = [4], S_surface_pressure = [101325], S_atmospheric_pressure = 101325,
      S_dsource_dT = []\<rparr>
     10 2 \<lparr>Acc_cells = [0], calls = [], preconditioner_acc_vals = []\<rparr>
   = Inr \<lparr>Acc_cells = [2],
          calls = [CreateMFDstiffnessMatrices, CreateMFDrhsVectors, MFD_ApplyBoundaryConditions,
                   AssembleGlobalMatrices],
          preconditioner_acc_vals = []\<rparr>
   \<and> update_precon
     \<lparr>coupled_to_subsurface_via_temp = False, coupled_to_subsurface_via_flux = False,
      assemble_preconditioner = True, is_source_term = False, source_IsDependency = False\<rparr>
     \<lparr>S_time = 10, S_de_dT = [4], S_surface_pressure = [101325], S_atmospheric_pressure = 101325,
      S_dsource_dT = []\<rparr>
     10 2 \<lparr>Acc_cells = [0], calls = [], preconditioner_acc_vals = []\<rparr>
   = Inr \<lparr>Acc_cells = [2],
          calls = [CreateMFDstiffnessMatrices, CreateMFDrhsVectors, MFD_ApplyBoundaryConditions,
                   AssembleGlobalMatrices, ComputeSchurComplement, UpdatePreconditioner],
          preconditioner_acc_vals = []\<rparr>"
  by (simp add: update_precon_def ASSERT_def Let_def update_precon_assemble_def call_def
      update_precon_diagonal_def AddSourcesToPrecon_def)

section \<open>Energy: the error norm is a maximum\<close>

lemma fold_max_upt:
  fixes g :: "nat \<Rightarrow> real"
  shows "e0 \<le> fold (\<lambda>f e. max e (g f)) [0..<n] e0"
    and "\<forall>f<n. g f \<le> fold (\<lambda>f e. max e (g f)) [0..<n] e0"
    and "fold (\<lambda>f e. max e (g f)) [0..<n] e0 = e0 \<or> (\<exists>f<n. fold (\<lambda>f e. max e (g f)) [0..<n] e0 = g f)"
proof (induction n)
  case 0
  { case 1 show ?case by simp }
  { case 2 show ?case by simp }
  { case 3 show ?case by simp }
next
  case (Suc n)
  { case 1 from Suc(1) show ?case by (simp add: max.coboundedI1) }
  { case 2 from Suc(2) show ?case by (auto simp add: less_Suc_eq max.coboundedI1) }
  { case 3 from Suc(3) show ?case by (auto simp add: less_Suc_eq max_def) }
qed

lemma fst_fold_argmax:
  fixes g :: "nat \<Rightarrow> real"
  shows "fst (fold (\<lambda>c (e, b). let tmp = g c in if tmp > e then (tmp, int c) else (e, b)) [0..<n] (e0, b0))
       = fold (\<lambda>c e. max e (g c)) [0..<n] e0"
  by (induction n) (auto simp add: Let_def case_prod_beta max_def)

lemma MPI_MAX_Max: "bufs \<noteq> [] \<Longrightarrow> MPI_MAX bufs = Max (set bufs)"
proof (cases bufs)
  case Nil
  assume "bufs \<noteq> []"
  with Nil show ?thesis by simp
next
  case (Cons a list)
  then show ?thesis
    using Max.set_eq_fold [of a list] by (simp add: MPI_MAX_def)
qed

lemma MPI_MAX_ge: "x \<in> set bufs \<Longrightarrow> x \<le> MPI_MAX bufs"
  by (cases "bufs = []") (simp_all add: MPI_MAX_Max)

lemma MPI_MAX_in: "bufs \<noteq> [] \<Longrightarrow> MPI_MAX bufs \<in> set bufs"
  by (simp add: MPI_MAX_Max)

lemma enorm_cell_loop_eq:
  "fst (enorm_cell_loop atol rtol h r) =
     fold (\<lambda>c e. max e (cell_ratio atol rtol h r c)) [0..<length (res_c r)] 0"
  unfolding enorm_cell_loop_def cell_ratio_def
  using fst_fold_argmax [where g = "\<lambda>c. \<bar>h * res_c r ! c\<bar> / (atol * cv r ! c * 2000000 + rtol * \<bar>energy r ! c\<bar>)"]
  by (simp add: mult.assoc)

lemma enorm_face_loop_eq:
  "enorm_face_loop atol rtol r =
     fold (\<lambda>f e. max e (face_ratio atol rtol r f)) [0..<length (res_f r)] 0"
  unfolding enorm_face_loop_def face_ratio_def by (simp add: Let_def)

lemma enorm_cell_loop_bounds:
  "0 \<le> fst (enorm_cell_loop atol rtol h r)"
  "c < length (res_c r) \<Longrightarrow> cell_ratio atol rtol h r c \<le> fst (enorm_cell_loop atol rtol h r)"
  "fst (enorm_cell_loop atol rtol h r) = 0 \<or>
     (\<exists>c<length (res_c r). fst (enorm_cell_loop atol rtol h r) = cell_ratio atol rtol h r c)"
  unfolding enorm_cell_loop_eq
  using fold_max_upt [where g = "cell_ratio atol rtol h r" and ?e0.0 = 0 and n = "length (res_c r)"]
  by blast+

lemma enorm_face_loop_bounds:
  "0 \<le> enorm_face_loop atol rtol r"
  "f < length (res_f r) \<Longrightarrow> face_ratio atol rtol r f \<le> enorm_face_loop atol rtol r"
  "enorm_face_loop atol rtol r = 0 \<or>
     (\<exists>f<length (res_f r). enorm_face_loop atol rtol r = face_ratio atol rtol r f)"
  unfolding enorm_face_loop_eq
  using fold_max_upt [where g = "face_ratio atol rtol r" and ?e0.0 = 0 and n = "length (res_f r)"]
  by blast+

lemma enorm_ge_local:
  assumes "r \<in> set ranks"
  shows "fst (enorm_cell_loop atol rtol h r) \<le> enorm vo atol rtol h ranks
       \<and> enorm_face_loop atol rtol r \<le> enorm vo atol rtol h ranks"
proof (cases "vo VERB_MEDIUM")
  case True
  let ?C = "\<lambda>r. fst (enorm_cell_loop atol rtol h r)"
  let ?F = "enorm_face_loop atol rtol"
  let ?K = "max (MPI_MAX (map ?F ranks)) (MPI_MAX (map ?C ranks))"
  have E: "enorm vo atol rtol h ranks = MPI_MAX (map (\<lambda>r. ?K) ranks)"
    using True by (simp add: enorm_def)
  have "?K \<in> set (map (\<lambda>r. ?K) ranks)"
    using assms by auto
  from MPI_MAX_ge [OF this] have K: "?K \<le> enorm vo atol rtol h ranks"
    by (simp only: E)
  have "?C r \<in> set (map ?C ranks)" "?F r \<in> set (map ?F ranks)"
    using assms by auto
  then have "?C r \<le> MPI_MAX (map ?C ranks) \<and> ?F r \<le> MPI_MAX (map ?F ranks)"
    using MPI_MAX_ge by blast
  with K show ?thesis
    by simp
next
  case False
  let ?C = "\<lambda>r. fst (enorm_cell_loop atol rtol h r)"
  let ?F = "enorm_face_loop atol rtol"
  have E: "enorm vo atol rtol h ranks = MPI_MAX (map (\<lambda>r. max (?F r) (?C r)) ranks)"
    using False by (simp add: enorm_def)
  have "max (?F r) (?C r) \<in> set (map (\<lambda>r. max (?F r) (?C r)) ranks)"
    using assms by auto
  from MPI_MAX_ge [OF this] have "max (?F r) (?C r) \<le> enorm vo atol rtol h ranks"
    by (simp only: E)
  then show ?thesis
    by simp
qed

lemma enorm_attained_local:
  assumes "ranks \<noteq> []"
  shows "\<exists>r\<in>set ranks. enorm vo atol rtol h ranks = fst (enorm_cell_loop atol rtol h r)
           \<or> enorm vo atol rtol h ranks = enorm_face_loop atol rtol r"
proof -
  let ?C = "\<lambda>r. fst (enorm_cell_loop atol rtol h r)"
  let ?F = "enorm_face_loop atol rtol"
  show ?thesis
  proof (cases "vo VERB_MEDIUM")
    case True
    let ?K = "max (MPI_MAX (map ?F ranks)) (MPI_MAX (map ?C ranks))"
    have "enorm vo atol rtol h ranks = MPI_MAX (map (\<lambda>r. ?K) ranks)"
      using True by (simp add: enorm_def)
    moreover have "MPI_MAX (map (\<lambda>r. ?K) ranks) \<in> set (map (\<lambda>r. ?K) ranks)"
      using assms by (intro MPI_MAX_in) simp
    ultimately have E: "enorm vo atol rtol h ranks = ?K"
      by auto
    have "map ?F ranks \<noteq> []" "map ?C ranks \<noteq> []"
      using assms by simp_all
    then have "MPI_MAX (map ?F ranks) \<in> set (map ?F ranks) \<and> MPI_MAX (map ?C ranks) \<in> set (map ?C ranks)"
      using MPI_MAX_in by blast
    then obtain r1 r2 where "r1 \<in> set ranks" "MPI_MAX (map ?F ranks) = ?F r1"
      "r2 \<in> set ranks" "MPI_MAX (map ?C ranks) = ?C r2"
      by auto
    with E show ?thesis
      by (auto simp add: max_def)
  next
    case False
    have "enorm vo atol rtol h ranks = MPI_MAX (map (\<lambda>r. max (?F r) (?C r)) ranks)"
      using False by (simp add: enorm_def)
    moreover have "MPI_MAX (map (\<lambda>r. max (?F r) (?C r)) ranks) \<in> set (map (\<lambda>r. max (?F r) (?C r)) ranks)"
      using assms by (intro MPI_MAX_in) simp
    ultimately obtain r where "r \<in> set ranks" "enorm vo atol rtol h ranks = max (?F r) (?C r)"
      by auto
    then show ?thesis
      by (auto simp add: max_def)
  qed
qed

lemma cell_ratio_nonneg:
  "0 < atol \<Longrightarrow> 0 \<le> rtol \<Longrightarrow> 0 < cv r ! c \<Longrightarrow> 0 \<le> cell_ratio atol rtol h r c"
  by (simp add: cell_ratio_def)

lemma face_ratio_nonneg:
  "0 < atol \<Longrightarrow> 0 \<le> rtol \<Longrightarrow> 0 \<le> face_ratio atol rtol r f"
  by (simp add: face_ratio_def)

text \<open>
  C6. With a positive absolute tolerance, a nonnegative relative tolerance and positive
  cell volumes, the error norm returned is the maximum of the cell-wise and face-wise
  ratios over all ranks, that is over the whole domain: no ratio of any cell or face
  exceeds it, and it is the ratio of some cell or of some face (it is 0 on a domain with
  no cell and no face). It is a maximum, not a sum.
\<close>

theorem enorm_is_maximum:
  assumes "ranks \<noteq> []" and "0 < atol" and "0 \<le> rtol"
    and "\<forall>r\<in>set ranks. length (res_c r) \<le> length (cv r) \<and> length (res_c r) \<le> length (energy r)
           \<and> (\<forall>c<length (res_c r). 0 < cv r ! c)"
  shows "(\<forall>r\<in>set ranks.
            (\<forall>c<length (res_c r). cell_ratio atol rtol h r c \<le> enorm vo atol rtol h ranks) \<and>
            (\<forall>f<length (res_f r). face_ratio atol rtol r f \<le> enorm vo atol rtol h ranks))
       \<and> ((\<exists>r\<in>set ranks.
              (\<exists>c<length (res_c r). enorm vo atol rtol h ranks = cell_ratio atol rtol h r c) \<or>
              (\<exists>f<length (res_f r). enorm vo atol rtol h ranks = face_ratio atol rtol r f))
          \<or> (enorm vo atol rtol h ranks = 0 \<and> (\<forall>r\<in>set ranks. res_c r = [] \<and> res_f r = [])))"
proof -
  let ?E = "enorm vo atol rtol h ranks"
  have ub_c: "cell_ratio atol rtol h r c \<le> ?E" if "r \<in> set ranks" "c < length (res_c r)" for r c
    using enorm_cell_loop_bounds(2) [OF that(2)] enorm_ge_local [OF that(1)]
    by (blast intro: order_trans)
  have ub_f: "face_ratio atol rtol r f \<le> ?E" if "r \<in> set ranks" "f < length (res_f r)" for r f
    using enorm_face_loop_bounds(2) [OF that(2)] enorm_ge_local [OF that(1)]
    by (blast intro: order_trans)
  obtain r0 where r0: "r0 \<in> set ranks"
    and E: "?E = fst (enorm_cell_loop atol rtol h r0) \<or> ?E = enorm_face_loop atol rtol r0"
    using enorm_attained_local [OF assms(1)] by blast
  have zero_or: "?E = 0 \<or> (\<exists>r\<in>set ranks.
              (\<exists>c<length (res_c r). ?E = cell_ratio atol rtol h r c) \<or>
              (\<exists>f<length (res_f r). ?E = face_ratio atol rtol r f))"
    using E r0 enorm_cell_loop_bounds(3) [of atol rtol h r0] enorm_face_loop_bounds(3) [of atol rtol r0]
    by metis
  have att: "(\<exists>r\<in>set ranks.
              (\<exists>c<length (res_c r). ?E = cell_ratio atol rtol h r c) \<or>
              (\<exists>f<length (res_f r). ?E = face_ratio atol rtol r f))"
    if z: "?E = 0" and ne: "\<not> (\<forall>r\<in>set ranks. res_c r = [] \<and> res_f r = [])"
  proof -
    from ne obtain r where r: "r \<in> set ranks" "res_c r \<noteq> [] \<or> res_f r \<noteq> []"
      by blast
    show ?thesis
    proof (cases "res_c r \<noteq> []")
      case True
      then have c: "0 < length (res_c r)" by simp
      have "0 < cv r ! 0" using assms(4) r(1) c by blast
      then have "0 \<le> cell_ratio atol rtol h r 0"
        using assms(2,3) by (rule cell_ratio_nonneg [rotated 2])
      moreover have "cell_ratio atol rtol h r 0 \<le> 0"
        using ub_c [OF r(1) c] z by simp
      ultimately have "?E = cell_ratio atol rtol h r 0"
        using z by simp
      with r(1) c show ?thesis by blast
    next
      case False
      with r(2) have f: "0 < length (res_f r)" by simp
      have "0 \<le> face_ratio atol rtol r 0"
        using assms(2,3) by (rule face_ratio_nonneg)
      moreover have "face_ratio atol rtol r 0 \<le> 0"
        using ub_f [OF r(1) f] z by simp
      ultimately have "?E = face_ratio atol rtol r 0"
        using z by simp
      with r(1) f show ?thesis by blast
    qed
  qed
  show ?thesis
    using ub_c ub_f zero_or att by blast
qed

theorem enorm_is_maximum_witness:
  "cell_ratio 1 0 2 \<lparr>energy = [100, 200], res_c = [3, - 8], res_f = [5], cv = [1, 1]\<rparr> 1
     \<le> enorm (\<lambda>l. False) 1 0 2 [\<lparr>energy = [100, 200], res_c = [3, - 8], res_f = [5], cv = [1, 1]\<rparr>]
   \<and> enorm (\<lambda>l. False) 1 0 2 [\<lparr>energy = [100, 200], res_c = [3, - 8], res_f = [5], cv = [1, 1]\<rparr>]
     = face_ratio 1 0 \<lparr>energy = [100, 200], res_c = [3, - 8], res_f = [5], cv = [1, 1]\<rparr> 0"
proof -
  let ?r = "\<lparr>energy = [100, 200], res_c = [3, - 8], res_f = [5], cv = [1, 1]\<rparr>"
  have cells: "\<forall>r\<in>set [?r]. length (res_c r) \<le> length (cv r) \<and> length (res_c r) \<le> length (energy r)
           \<and> (\<forall>c<length (res_c r). 0 < cv r ! c)"
    by (simp add: All_less_Suc)
  have "cell_ratio 1 0 2 ?r 1 \<le> enorm (\<lambda>l. False) 1 0 2 [?r]"
    using enorm_is_maximum [of "[?r]" 1 0 2 "\<lambda>l. False", OF _ _ _ cells] by simp
  moreover have "enorm (\<lambda>l. False) 1 0 2 [?r] = face_ratio 1 0 ?r 0"
    by (simp add: enorm_def enorm_cell_loop_def enorm_face_loop_def MPI_MAX_def Let_def
        face_ratio_def)
  ultimately show ?thesis by simp
qed

section \<open>Richards flow: admissibility\<close>

lemma extrema_loop_split:
  fixes xs :: "real list"
  shows "fold (\<lambda>c (minT_c, min_c, maxT_c, max_c).
             let (minT_c, min_c) =
                   (if xs ! c < minT_c then (xs ! c, int c) else (minT_c, min_c));
                 (maxT_c, max_c) =
                   (if xs ! c > maxT_c then (xs ! c, int c) else (maxT_c, max_c))
             in (minT_c, min_c, maxT_c, max_c))
       [0..<n] (a, i, b, j) =
     (fst (fold (\<lambda>c (m, k). if xs ! c < m then (xs ! c, int c) else (m, k)) [0..<n] (a, i)),
      snd (fold (\<lambda>c (m, k). if xs ! c < m then (xs ! c, int c) else (m, k)) [0..<n] (a, i)),
      fst (fold (\<lambda>c (m, k). if xs ! c > m then (xs ! c, int c) else (m, k)) [0..<n] (b, j)),
      snd (fold (\<lambda>c (m, k). if xs ! c > m then (xs ! c, int c) else (m, k)) [0..<n] (b, j)))"
  by (induction n) (simp_all add: case_prod_beta Let_def)

lemma argmin_loop_inv:
  fixes xs :: "real list"
  assumes "n \<le> length xs"
  shows "case fold (\<lambda>c (m, k). if xs ! c < m then (xs ! c, int c) else (m, k)) [0..<n] (init, - 1) of
     (m, k) \<Rightarrow>
       m \<le> init \<and> (\<forall>c<n. m \<le> xs ! c) \<and>
       ((k = - 1 \<and> m = init) \<or> (0 \<le> k \<and> nat k < n \<and> xs ! nat k = m))"
  using assms
proof (induction n)
  case 0
  then show ?case by simp
next
  case (Suc n)
  obtain m k where mk: "fold (\<lambda>c (m, k). if xs ! c < m then (xs ! c, int c) else (m, k)) [0..<n] (init, - 1) = (m, k)"
    by (cases "fold (\<lambda>c (m, k). if xs ! c < m then (xs ! c, int c) else (m, k)) [0..<n] (init, - 1)")
  with Suc have IH: "m \<le> init" "\<forall>c<n. m \<le> xs ! c"
    "(k = - 1 \<and> m = init) \<or> (0 \<le> k \<and> nat k < n \<and> xs ! nat k = m)"
    by simp_all
  show ?case
  proof (cases "xs ! n < m")
    case True
    with IH show ?thesis
      by (auto simp add: mk less_Suc_eq)
  next
    case False
    with IH show ?thesis
      by (auto simp add: mk less_Suc_eq)
  qed
qed

lemma argmax_loop_inv:
  fixes xs :: "real list"
  assumes "n \<le> length xs"
  shows "case fold (\<lambda>c (m, k). if xs ! c > m then (xs ! c, int c) else (m, k)) [0..<n] (init, - 1) of
     (m, k) \<Rightarrow>
       init \<le> m \<and> (\<forall>c<n. xs ! c \<le> m) \<and>
       ((k = - 1 \<and> m = init) \<or> (0 \<le> k \<and> nat k < n \<and> xs ! nat k = m))"
  using assms
proof (induction n)
  case 0
  then show ?case by simp
next
  case (Suc n)
  obtain m k where mk: "fold (\<lambda>c (m, k). if xs ! c > m then (xs ! c, int c) else (m, k)) [0..<n] (init, - 1) = (m, k)"
    by (cases "fold (\<lambda>c (m, k). if xs ! c > m then (xs ! c, int c) else (m, k)) [0..<n] (init, - 1)")
  with Suc have IH: "init \<le> m" "\<forall>c<n. xs ! c \<le> m"
    "(k = - 1 \<and> m = init) \<or> (0 \<le> k \<and> nat k < n \<and> xs ! nat k = m)"
    by simp_all
  show ?case
  proof (cases "xs ! n > m")
    case True
    with IH show ?thesis
      by (auto simp add: mk less_Suc_eq)
  next
    case False
    with IH show ?thesis
      by (auto simp add: mk less_Suc_eq)
  qed
qed

lemma extrema_loop_inv:
  fixes xs :: "real list"
  shows "case extrema_loop xs of
     (minT, min_c, maxT, max_c) \<Rightarrow>
       minT \<le> 10 ^ 15 \<and> (\<forall>c<length xs. minT \<le> xs ! c) \<and>
       ((min_c = - 1 \<and> minT = 10 ^ 15) \<or>
        (0 \<le> min_c \<and> nat min_c < length xs \<and> xs ! nat min_c = minT)) \<and>
       - (10 ^ 15) \<le> maxT \<and> (\<forall>c<length xs. xs ! c \<le> maxT) \<and>
       ((max_c = - 1 \<and> maxT = - (10 ^ 15)) \<or>
        (0 \<le> max_c \<and> nat max_c < length xs \<and> xs ! nat max_c = maxT))"
  using argmin_loop_inv [of "length xs" xs "10 ^ 15"] argmax_loop_inv [of "length xs" xs "- (10 ^ 15)"]
  unfolding extrema_loop_def extrema_loop_split
  by (simp add: case_prod_beta)

lemma MinAll_Min: "bufs \<noteq> [] \<Longrightarrow> MinAll bufs = Min (set bufs)"
proof (cases bufs)
  case Nil
  assume "bufs \<noteq> []"
  with Nil show ?thesis by simp
next
  case (Cons a list)
  then show ?thesis
    using Min.set_eq_fold [of a list] by (simp add: MinAll_def)
qed

lemma MaxAll_Max: "bufs \<noteq> [] \<Longrightarrow> MaxAll bufs = Max (set bufs)"
proof (cases bufs)
  case Nil
  assume "bufs \<noteq> []"
  with Nil show ?thesis by simp
next
  case (Cons a list)
  then show ?thesis
    using Max.set_eq_fold [of a list] by (simp add: MaxAll_def)
qed

lemma MinAll_less_iff:
  assumes "ranks \<noteq> []"
  shows "MinAll (map g ranks) < b \<longleftrightarrow> (\<exists>r\<in>set ranks. g r < b)"
proof -
  have "MinAll (map g ranks) = Min (g ` set ranks)"
    using assms by (simp add: MinAll_Min)
  then show ?thesis
    using assms by (simp add: Min_less_iff)
qed

lemma MaxAll_greater_iff:
  assumes "ranks \<noteq> []"
  shows "b < MaxAll (map g ranks) \<longleftrightarrow> (\<exists>r\<in>set ranks. b < g r)"
proof -
  have "MaxAll (map g ranks) = Max (g ` set ranks)"
    using assms by (simp add: MaxAll_Max)
  then show ?thesis
    using assms by (simp add: Max_gr_iff)
qed

lemma MPI_MINLOC_cases:
  "MPI_MINLOC a b = a \<or> MPI_MINLOC a b = b"
  "ENorm_value (MPI_MINLOC a b) \<le> ENorm_value a"
  "ENorm_value (MPI_MINLOC a b) \<le> ENorm_value b"
  by (cases a; cases b; auto simp add: MPI_MINLOC_def min_def)+

lemma MPI_MAXLOC_cases:
  "MPI_MAXLOC a b = a \<or> MPI_MAXLOC a b = b"
  "ENorm_value (MPI_MAXLOC a b) \<ge> ENorm_value a"
  "ENorm_value (MPI_MAXLOC a b) \<ge> ENorm_value b"
  by (cases a; cases b; auto simp add: MPI_MAXLOC_def min_def)+

lemma fold_MINLOC:
  "fold (\<lambda>b acc. MPI_MINLOC acc b) xs a \<in> set (a # xs) \<and>
   (\<forall>l\<in>set (a # xs). ENorm_value (fold (\<lambda>b acc. MPI_MINLOC acc b) xs a) \<le> ENorm_value l)"
proof (induction xs arbitrary: a)
  case Nil
  then show ?case by simp
next
  case (Cons x xs)
  from Cons [of "MPI_MINLOC a x"] MPI_MINLOC_cases [where a = a and b = x] show ?case
    by (auto intro: order_trans)
qed

lemma fold_MAXLOC:
  "fold (\<lambda>b acc. MPI_MAXLOC acc b) xs a \<in> set (a # xs) \<and>
   (\<forall>l\<in>set (a # xs). ENorm_value l \<le> ENorm_value (fold (\<lambda>b acc. MPI_MAXLOC acc b) xs a))"
proof (induction xs arbitrary: a)
  case Nil
  then show ?case by simp
next
  case (Cons x xs)
  from Cons [of "MPI_MAXLOC a x"] MPI_MAXLOC_cases [where a = a and b = x] show ?case
    by (auto intro: order_trans)
qed

lemma Allreduce_MINLOC:
  assumes "ls \<noteq> []"
  shows "MPI_Allreduce MPI_MINLOC ls \<in> set ls"
    and "l \<in> set ls \<Longrightarrow> ENorm_value (MPI_Allreduce MPI_MINLOC ls) \<le> ENorm_value l"
  using assms fold_MINLOC [of "tl ls" "hd ls"]
  by (cases ls; simp add: MPI_Allreduce_def; blast)+

lemma Allreduce_MAXLOC:
  assumes "ls \<noteq> []"
  shows "MPI_Allreduce MPI_MAXLOC ls \<in> set ls"
    and "l \<in> set ls \<Longrightarrow> ENorm_value l \<le> ENorm_value (MPI_Allreduce MPI_MAXLOC ls)"
  using assms fold_MAXLOC [of "tl ls" "hd ls"]
  by (cases ls; simp add: MPI_Allreduce_def; blast)+

lemma face_extrema_eq: "face_extrema (up_Data r) = extrema_loop (face_values r)"
  by (simp add: face_extrema_def face_values_def extrema_loop_def split: option.splits)

lemma extrema_loop_min_less_iff:
  assumes "b \<le> 10 ^ 15"
  shows "fst (extrema_loop xs) < b \<longleftrightarrow> (\<exists>x\<in>set xs. x < b)"
proof -
  obtain m i M j where e: "extrema_loop xs = (m, i, M, j)"
    by (cases "extrema_loop xs")
  with extrema_loop_inv [of xs] have inv: "\<forall>c<length xs. m \<le> xs ! c"
    "(i = - 1 \<and> m = 10 ^ 15) \<or> (0 \<le> i \<and> nat i < length xs \<and> xs ! nat i = m)"
    by simp_all
  have "m < b \<longleftrightarrow> (\<exists>x\<in>set xs. x < b)"
  proof
    assume "m < b"
    with inv(2) assms have "nat i < length xs \<and> xs ! nat i = m"
      by auto
    with \<open>m < b\<close> show "\<exists>x\<in>set xs. x < b"
      using nth_mem by blast
  next
    assume "\<exists>x\<in>set xs. x < b"
    then obtain c where "c < length xs" "xs ! c < b"
      by (auto simp add: in_set_conv_nth)
    with inv(1) show "m < b"
      by (meson le_less_trans)
  qed
  with e show ?thesis by simp
qed

lemma extrema_loop_max_greater_iff:
  assumes "- (10 ^ 15) \<le> b"
  shows "b < fst (snd (snd (extrema_loop xs))) \<longleftrightarrow> (\<exists>x\<in>set xs. b < x)"
proof -
  obtain m i M j where e: "extrema_loop xs = (m, i, M, j)"
    by (cases "extrema_loop xs")
  with extrema_loop_inv [of xs] have inv: "\<forall>c<length xs. xs ! c \<le> M"
    "(j = - 1 \<and> M = - (10 ^ 15)) \<or> (0 \<le> j \<and> nat j < length xs \<and> xs ! nat j = M)"
    by simp_all
  have "b < M \<longleftrightarrow> (\<exists>x\<in>set xs. b < x)"
  proof
    assume "b < M"
    with inv(2) assms have "nat j < length xs \<and> xs ! nat j = M"
      by auto
    with \<open>b < M\<close> show "\<exists>x\<in>set xs. b < x"
      using nth_mem by blast
  next
    assume "\<exists>x\<in>set xs. b < x"
    then obtain c where "c < length xs" "b < xs ! c"
      by (auto simp add: in_set_conv_nth)
    with inv(1) show "b < M"
      by (meson less_le_trans)
  qed
  with e show ?thesis by simp
qed

lemma extrema_loop_Nil: "extrema_loop [] = (10 ^ 15, - 1, - (10 ^ 15), - 1)"
  by (simp add: extrema_loop_def)

lemma local_min_max_eq:
  "local_min_max (up_Data r) =
     (min (fst (extrema_loop (cell_values r))) (fst (extrema_loop (face_values r))),
      max (fst (snd (snd (extrema_loop (cell_values r)))))
          (fst (snd (snd (extrema_loop (face_values r))))))"
proof (cases "cv_face (up_Data r)")
  case None
  then have f: "face_values r = []"
    by (simp add: face_values_def)
  obtain m i M j where e: "extrema_loop (cell_values r) = (m, i, M, j)"
    by (cases "extrema_loop (cell_values r)")
  with extrema_loop_inv [of "cell_values r"] have "m \<le> 10 ^ 15" "- (10 ^ 15) \<le> M"
    by simp_all
  then show ?thesis
    using None e
    by (simp add: local_min_max_def face_extrema_eq f extrema_loop_Nil
        cell_values_def [symmetric] min_def max_def)
next
  case (Some pres_f)
  then show ?thesis
    by (simp add: local_min_max_def face_extrema_eq cell_values_def [symmetric]
        case_prod_beta)
qed

lemma local_min_less_iff:
  assumes "b \<le> 10 ^ 15"
  shows "fst (local_min_max (up_Data r)) < b \<longleftrightarrow>
         (\<exists>x\<in>set (cell_values r) \<union> set (face_values r). x < b)"
  using extrema_loop_min_less_iff [OF assms, of "cell_values r"]
    extrema_loop_min_less_iff [OF assms, of "face_values r"]
  by (auto simp add: local_min_max_eq min_less_iff_disj)

lemma local_max_greater_iff:
  assumes "- (10 ^ 15) \<le> b"
  shows "b < snd (local_min_max (up_Data r)) \<longleftrightarrow>
         (\<exists>x\<in>set (cell_values r) \<union> set (face_values r). b < x)"
  using extrema_loop_max_greater_iff [OF assms, of "cell_values r"]
    extrema_loop_max_greater_iff [OF assms, of "face_values r"]
  by (auto simp add: local_min_max_eq less_max_iff_disj)

lemma IsAdmissible_fst:
  "fst (IsAdmissible vo ranks me) \<longleftrightarrow>
     \<not> (MinAll (map (\<lambda>r. fst (local_min_max (up_Data r))) ranks) < - (10 ^ 9)
        \<or> MaxAll (map (\<lambda>r. snd (local_min_max (up_Data r))) ranks) > 10 ^ 8)"
  by (simp add: IsAdmissible_def Let_def)

lemma IsAdmissible_iff:
  assumes "ranks \<noteq> []"
  shows "fst (IsAdmissible vo ranks me) \<longleftrightarrow>
     (\<forall>r\<in>set ranks. \<forall>x\<in>set (cell_values r) \<union> set (face_values r). - (10 ^ 9) \<le> x \<and> x \<le> 10 ^ 8)"
proof -
  have a: "(- (10 ^ 9) :: real) \<le> 10 ^ 15" "- (10 ^ 15) \<le> (10 ^ 8 :: real)"
    by simp_all
  show ?thesis
    unfolding IsAdmissible_fst MinAll_less_iff [OF assms] MaxAll_greater_iff [OF assms]
      local_min_less_iff [OF a(1)] local_max_greater_iff [OF a(2)]
    by (auto simp add: not_less)
qed

lemma reduce_extremal_min:
  assumes "ranks \<noteq> []"
  shows "extremal_min vals GID ranks
     (MPI_Allreduce MPI_MINLOC
        (map (\<lambda>r. \<lparr>ENorm_value = fst (extrema_loop (vals r)),
                    ENorm_gid = GID r (fst (snd (extrema_loop (vals r))))\<rparr>) ranks))"
proof -
  let ?l = "\<lambda>r. \<lparr>ENorm_value = fst (extrema_loop (vals r)),
                    ENorm_gid = GID r (fst (snd (extrema_loop (vals r))))\<rparr>"
  let ?G = "MPI_Allreduce MPI_MINLOC (map ?l ranks)"
  have ne: "map ?l ranks \<noteq> []"
    using assms by simp
  have lower: "ENorm_value ?G \<le> x" if rx: "r \<in> set ranks" "x \<in> set (vals r)" for r x
  proof -
    have "?l r \<in> set (map ?l ranks)"
      using rx(1) by simp
    from Allreduce_MINLOC(2) [OF ne this]
    have "ENorm_value ?G \<le> fst (extrema_loop (vals r))"
      by simp
    moreover obtain c where "c < length (vals r)" "vals r ! c = x"
      using rx(2) by (auto simp add: in_set_conv_nth)
    moreover have "\<forall>c<length (vals r). fst (extrema_loop (vals r)) \<le> vals r ! c"
      using extrema_loop_inv [of "vals r"] by (simp add: case_prod_beta)
    ultimately show ?thesis
      by force
  qed
  obtain r where r: "r \<in> set ranks" "?G = ?l r"
    using Allreduce_MINLOC(1) [OF ne] by auto
  obtain m i M j where e: "extrema_loop (vals r) = (m, i, M, j)"
    by (cases "extrema_loop (vals r)")
  with extrema_loop_inv [of "vals r"]
  have "(i = - 1 \<and> m = 10 ^ 15) \<or> (0 \<le> i \<and> nat i < length (vals r) \<and> vals r ! nat i = m)"
    by simp
  then have "(\<exists>r\<in>set ranks. \<exists>c<length (vals r).
          vals r ! c = ENorm_value ?G \<and> GID r (int c) = ENorm_gid ?G)
      \<or> ENorm_value ?G = 10 ^ 15"
  proof
    assume "i = - 1 \<and> m = 10 ^ 15"
    then show ?thesis
      using r(2) e by simp
  next
    assume "0 \<le> i \<and> nat i < length (vals r) \<and> vals r ! nat i = m"
    then have "nat i < length (vals r)" "vals r ! nat i = ENorm_value ?G"
      "GID r (int (nat i)) = ENorm_gid ?G"
      using r(2) e by simp_all
    with r(1) show ?thesis
      by blast
  qed
  with lower show ?thesis
    unfolding extremal_min_def by blast
qed

lemma reduce_extremal_max:
  assumes "ranks \<noteq> []"
  shows "extremal_max vals GID ranks
     (MPI_Allreduce MPI_MAXLOC
        (map (\<lambda>r. \<lparr>ENorm_value = fst (snd (snd (extrema_loop (vals r)))),
                    ENorm_gid = GID r (snd (snd (snd (extrema_loop (vals r)))))\<rparr>) ranks))"
proof -
  let ?l = "\<lambda>r. \<lparr>ENorm_value = fst (snd (snd (extrema_loop (vals r)))),
                    ENorm_gid = GID r (snd (snd (snd (extrema_loop (vals r)))))\<rparr>"
  let ?G = "MPI_Allreduce MPI_MAXLOC (map ?l ranks)"
  have ne: "map ?l ranks \<noteq> []"
    using assms by simp
  have upper: "x \<le> ENorm_value ?G" if rx: "r \<in> set ranks" "x \<in> set (vals r)" for r x
  proof -
    have "?l r \<in> set (map ?l ranks)"
      using rx(1) by simp
    from Allreduce_MAXLOC(2) [OF ne this]
    have "fst (snd (snd (extrema_loop (vals r)))) \<le> ENorm_value ?G"
      by simp
    moreover obtain c where "c < length (vals r)" "vals r ! c = x"
      using rx(2) by (auto simp add: in_set_conv_nth)
    moreover have "\<forall>c<length (vals r). vals r ! c \<le> fst (snd (snd (extrema_loop (vals r))))"
      using extrema_loop_inv [of "vals r"] by (simp add: case_prod_beta)
    ultimately show ?thesis
      by force
  qed
  obtain r where r: "r \<in> set ranks" "?G = ?l r"
    using Allreduce_MAXLOC(1) [OF ne] by auto
  obtain m i M j where e: "extrema_loop (vals r) = (m, i, M, j)"
    by (cases "extrema_loop (vals r)")
  with extrema_loop_inv [of "vals r"]
  have "(j = - 1 \<and> M = - (10 ^ 15)) \<or> (0 \<le> j \<and> nat j < length (vals r) \<and> vals r ! nat j = M)"
    by simp
  then have "(\<exists>r\<in>set ranks. \<exists>c<length (vals r).
          vals r ! c = ENorm_value ?G \<and> GID r (int c) = ENorm_gid ?G)
      \<or> ENorm_value ?G = - (10 ^ 15)"
  proof
    assume "j = - 1 \<and> M = - (10 ^ 15)"
    then show ?thesis
      using r(2) e by simp
  next
    assume "0 \<le> j \<and> nat j < length (vals r) \<and> vals r ! nat j = M"
    then have "nat j < length (vals r)" "vals r ! nat j = ENorm_value ?G"
      "GID r (int (nat j)) = ENorm_gid ?G"
      using r(2) e by simp_all
    with r(1) show ?thesis
      by blast
  qed
  with upper show ?thesis
    unfolding extremal_max_def by blast
qed

lemma IsAdmissible_snd_rejected:
  assumes "\<not> fst (IsAdmissible vo ranks me)" and "vo VERB_MEDIUM"
  shows "\<exists>pre. snd (IsAdmissible vo ranks me) =
     pre @ [Not_admissible,
            Cells_min_max
              (MPI_Allreduce MPI_MINLOC
                (map (\<lambda>r. \<lparr>ENorm_value = fst (extrema_loop (cell_values r)),
                    ENorm_gid = cell_Map_GID r (fst (snd (extrema_loop (cell_values r))))\<rparr>) ranks))
              (MPI_Allreduce MPI_MAXLOC
                (map (\<lambda>r. \<lparr>ENorm_value = fst (snd (snd (extrema_loop (cell_values r)))),
                    ENorm_gid = cell_Map_GID r (snd (snd (snd (extrema_loop (cell_values r)))))\<rparr>) ranks))]
      @ (if cv_face (up_Data (ranks ! me)) \<noteq> None
         then [Cells_min_max
              (MPI_Allreduce MPI_MINLOC
                (map (\<lambda>r. \<lparr>ENorm_value = fst (extrema_loop (face_values r)),
                    ENorm_gid = face_Map_GID r (fst (snd (extrema_loop (face_values r))))\<rparr>) ranks))
              (MPI_Allreduce MPI_MAXLOC
                (map (\<lambda>r. \<lparr>ENorm_value = fst (snd (snd (extrema_loop (face_values r)))),
                    ENorm_gid = face_Map_GID r (snd (snd (snd (extrema_loop (face_values r)))))\<rparr>) ranks))]
         else [])"
proof -
  have rej: "MinAll (map (\<lambda>r. fst (local_min_max (up_Data r))) ranks) < - (10 ^ 9)
        \<or> MaxAll (map (\<lambda>r. snd (local_min_max (up_Data r))) ranks) > 10 ^ 8"
    using assms(1) by (simp add: IsAdmissible_fst)
  show ?thesis
    using rej assms(2)
    by (simp add: IsAdmissible_def Let_def case_prod_beta face_extrema_eq
        cell_values_def [symmetric] del: append_assoc)
qed

lemma IsAdmissible_snd_quiet:
  assumes "\<not> vo VERB_MEDIUM"
  shows "set (snd (IsAdmissible vo ranks me)) \<subseteq>
     {Checking_admissibility,
      Admissible_p (MinAll (map (\<lambda>r. fst (local_min_max (up_Data r))) ranks))
        (MaxAll (map (\<lambda>r. snd (local_min_max (up_Data r))) ranks))}"
  using assms by (auto simp add: IsAdmissible_def Let_def)

text \<open>
  C7, as the code has it. The check returns true exactly when every unknown of the trial
  iterate, over the cells and (where present) the faces of all ranks, lies between
  \<open>-1.0e9\<close> and \<open>1.0e8\<close>; it returns false exactly when the global minimum is below
  \<open>-1.0e9\<close> or the global maximum above \<open>1.0e8\<close>. It returns a truth value and
  diagnostic lines only. On rejection, when the verbose object admits medium output, the
  lines report the extremal cell values with their global ids, and the extremal face
  values with theirs if the iterate has faces; when the verbose object does not admit
  medium output no such line is written.
\<close>

theorem IsAdmissible_bounds:
  assumes "ranks \<noteq> []"
  shows "(fst (IsAdmissible vo ranks me) \<longleftrightarrow>
            (\<forall>r\<in>set ranks. \<forall>x\<in>set (cell_values r) \<union> set (face_values r).
               - (10 ^ 9) \<le> x \<and> x \<le> 10 ^ 8))
       \<and> (\<not> fst (IsAdmissible vo ranks me) \<and> vo VERB_MEDIUM \<longrightarrow>
            (\<exists>cmin cmax. Cells_min_max cmin cmax \<in> set (snd (IsAdmissible vo ranks me)) \<and>
               extremal_min cell_values cell_Map_GID ranks cmin \<and>
               extremal_max cell_values cell_Map_GID ranks cmax) \<and>
            (cv_face (up_Data (ranks ! me)) \<noteq> None \<longrightarrow>
               (\<exists>fmin fmax. Cells_min_max fmin fmax \<in> set (snd (IsAdmissible vo ranks me)) \<and>
                  extremal_min face_values face_Map_GID ranks fmin \<and>
                  extremal_max face_values face_Map_GID ranks fmax)))
       \<and> (\<not> vo VERB_MEDIUM \<longrightarrow>
            Not_admissible \<notin> set (snd (IsAdmissible vo ranks me)) \<and>
            (\<forall>a b. Cells_min_max a b \<notin> set (snd (IsAdmissible vo ranks me))))"
proof (intro conjI impI)
  show "fst (IsAdmissible vo ranks me) \<longleftrightarrow>
            (\<forall>r\<in>set ranks. \<forall>x\<in>set (cell_values r) \<union> set (face_values r).
               - (10 ^ 9) \<le> x \<and> x \<le> 10 ^ 8)"
    using assms by (rule IsAdmissible_iff)
next
  assume "\<not> fst (IsAdmissible vo ranks me) \<and> vo VERB_MEDIUM"
  then obtain pre where out: "snd (IsAdmissible vo ranks me) =
     pre @ [Not_admissible,
            Cells_min_max
              (MPI_Allreduce MPI_MINLOC
                (map (\<lambda>r. \<lparr>ENorm_value = fst (extrema_loop (cell_values r)),
                    ENorm_gid = cell_Map_GID r (fst (snd (extrema_loop (cell_values r))))\<rparr>) ranks))
              (MPI_Allreduce MPI_MAXLOC
                (map (\<lambda>r. \<lparr>ENorm_value = fst (snd (snd (extrema_loop (cell_values r)))),
                    ENorm_gid = cell_Map_GID r (snd (snd (snd (extrema_loop (cell_values r)))))\<rparr>) ranks))]
      @ (if cv_face (up_Data (ranks ! me)) \<noteq> None
         then [Cells_min_max
              (MPI_Allreduce MPI_MINLOC
                (map (\<lambda>r. \<lparr>ENorm_value = fst (extrema_loop (face_values r)),
                    ENorm_gid = face_Map_GID r (fst (snd (extrema_loop (face_values r))))\<rparr>) ranks))
              (MPI_Allreduce MPI_MAXLOC
                (map (\<lambda>r. \<lparr>ENorm_value = fst (snd (snd (extrema_loop (face_values r)))),
                    ENorm_gid = face_Map_GID r (snd (snd (snd (extrema_loop (face_values r)))))\<rparr>) ranks))]
         else [])"
    using IsAdmissible_snd_rejected by blast
  have "Cells_min_max
              (MPI_Allreduce MPI_MINLOC
                (map (\<lambda>r. \<lparr>ENorm_value = fst (extrema_loop (cell_values r)),
                    ENorm_gid = cell_Map_GID r (fst (snd (extrema_loop (cell_values r))))\<rparr>) ranks))
              (MPI_Allreduce MPI_MAXLOC
                (map (\<lambda>r. \<lparr>ENorm_value = fst (snd (snd (extrema_loop (cell_values r)))),
                    ENorm_gid = cell_Map_GID r (snd (snd (snd (extrema_loop (cell_values r)))))\<rparr>) ranks))
        \<in> set (snd (IsAdmissible vo ranks me))"
    unfolding out by simp
  with reduce_extremal_min [OF assms, of cell_values cell_Map_GID]
    reduce_extremal_max [OF assms, of cell_values cell_Map_GID]
  show "\<exists>cmin cmax. Cells_min_max cmin cmax \<in> set (snd (IsAdmissible vo ranks me)) \<and>
               extremal_min cell_values cell_Map_GID ranks cmin \<and>
               extremal_max cell_values cell_Map_GID ranks cmax"
    by blast
  show "\<exists>fmin fmax. Cells_min_max fmin fmax \<in> set (snd (IsAdmissible vo ranks me)) \<and>
                  extremal_min face_values face_Map_GID ranks fmin \<and>
                  extremal_max face_values face_Map_GID ranks fmax"
    if "cv_face (up_Data (ranks ! me)) \<noteq> None"
  proof -
    have "Cells_min_max
              (MPI_Allreduce MPI_MINLOC
                (map (\<lambda>r. \<lparr>ENorm_value = fst (extrema_loop (face_values r)),
                    ENorm_gid = face_Map_GID r (fst (snd (extrema_loop (face_values r))))\<rparr>) ranks))
              (MPI_Allreduce MPI_MAXLOC
                (map (\<lambda>r. \<lparr>ENorm_value = fst (snd (snd (extrema_loop (face_values r)))),
                    ENorm_gid = face_Map_GID r (snd (snd (snd (extrema_loop (face_values r)))))\<rparr>) ranks))
        \<in> set (snd (IsAdmissible vo ranks me))"
      unfolding out using that by simp
    with reduce_extremal_min [OF assms, of face_values face_Map_GID]
      reduce_extremal_max [OF assms, of face_values face_Map_GID]
    show ?thesis
      by blast
  qed
next
  assume q: "\<not> vo VERB_MEDIUM"
  from q IsAdmissible_snd_quiet [of vo ranks me]
  show "Not_admissible \<notin> set (snd (IsAdmissible vo ranks me))"
    by auto
  from q IsAdmissible_snd_quiet [of vo ranks me]
  show "\<forall>a b. Cells_min_max a b \<notin> set (snd (IsAdmissible vo ranks me))"
    by auto
qed

theorem IsAdmissible_bounds_witness:
  "IsAdmissible (vo_at VERB_MEDIUM) [scenario_rank] 0 =
     (False, [Not_admissible,
              Cells_min_max \<lparr>ENorm_value = 101325, ENorm_gid = 10\<rparr>
                            \<lparr>ENorm_value = 200000000, ENorm_gid = 11\<rparr>,
              Cells_min_max \<lparr>ENorm_value = - 7, ENorm_gid = 101\<rparr>
                            \<lparr>ENorm_value = 5, ENorm_gid = 100\<rparr>])"
proof -
  have ne: "[scenario_rank] \<noteq> []"
    by simp
  have "\<not> (\<forall>r\<in>set [scenario_rank]. \<forall>x\<in>set (cell_values r) \<union> set (face_values r).
               - (10 ^ 9) \<le> x \<and> x \<le> 10 ^ 8)"
    by (simp add: scenario_rank_def cell_values_def face_values_def)
  with IsAdmissible_bounds [OF ne, of "vo_at VERB_MEDIUM" 0]
  have "\<not> fst (IsAdmissible (vo_at VERB_MEDIUM) [scenario_rank] 0)"
    by blast
  moreover have "snd (IsAdmissible (vo_at VERB_MEDIUM) [scenario_rank] 0) =
     [Not_admissible,
              Cells_min_max \<lparr>ENorm_value = 101325, ENorm_gid = 10\<rparr>
                            \<lparr>ENorm_value = 200000000, ENorm_gid = 11\<rparr>,
              Cells_min_max \<lparr>ENorm_value = - 7, ENorm_gid = 101\<rparr>
                            \<lparr>ENorm_value = 5, ENorm_gid = 100\<rparr>]"
    by (simp add: IsAdmissible_def scenario_rank_def vo_at_def level_of_def local_min_max_def
        face_extrema_def extrema_loop_def MinAll_def MaxAll_def MPI_Allreduce_def Let_def)
  ultimately show ?thesis
    by (simp add: prod_eq_iff)
qed

text \<open>
  C7, as the spec states it, fails where the verbose object is set below medium: the
  iterate of the scenario is rejected and nothing is reported.
\<close>

theorem IsAdmissible_quiet_counterexample:
  "IsAdmissible (vo_at VERB_LOW) [scenario_rank] 0 = (False, [])"
  by (simp add: IsAdmissible_def scenario_rank_def vo_at_def level_of_def local_min_max_def
      face_extrema_def extrema_loop_def MinAll_def MaxAll_def Let_def)

end
